theory Spec2Isabelle
  imports Complex_Main
begin

section \<open>The CRF layer of the BiLSTM-CNNs-CRF tagger (model.py)\<close>

text \<open>
  The development embeds the CRF part of \<^verbatim>\<open>model.py\<close>: the helpers
  \<^verbatim>\<open>log_sum_exp\<close> and \<^verbatim>\<open>argmax\<close> and the methods \<^verbatim>\<open>forward_alg\<close>,
  \<^verbatim>\<open>score_sentences\<close> and \<^verbatim>\<open>viterbi_decode\<close> of the class \<^verbatim>\<open>BiLSTM_CRF\<close>.

  A one-dimensional tensor is a list, a two-dimensional tensor is a list of rows. Every
  exception the Python code or the tensor library raises is a value \<open>Inl e\<close> of the
  result type. Devices and gradient tracking do not change the values computed and are
  left out.

  Tensor entries are real numbers. The first embedding of each method computes with them
  exactly; it decides which calls raise and what the methods compute under exact
  arithmetic. The source computes in 32-bit floats: the last section of definitions
  repeats \<^verbatim>\<open>log_sum_exp\<close>, \<^verbatim>\<open>forward_alg\<close> and \<^verbatim>\<open>score_sentences\<close> with every
  operation rounded, which is what the values of the running program are compared with.
\<close>

subsection \<open>Errors\<close>

datatype error =
  AttributeError | TypeError | IndexError | KeyError | RuntimeError | AssertionError

definition ebind :: "error + 'a \<Rightarrow> ('a \<Rightarrow> error + 'b) \<Rightarrow> error + 'b" where
  "ebind r f = (case r of Inl e \<Rightarrow> Inl e | Inr v \<Rightarrow> f v)"

fun emap :: "('a \<Rightarrow> error + 'b) \<Rightarrow> 'a list \<Rightarrow> error + 'b list" where
  "emap f [] = Inr []"
| "emap f (x # xs) = ebind (f x) (\<lambda>y. ebind (emap f xs) (\<lambda>ys. Inr (y # ys)))"

definition raises :: "error + 'a \<Rightarrow> bool" where
  "raises r = (case r of Inl e \<Rightarrow> True | Inr v \<Rightarrow> False)"

subsection \<open>Tensors\<close>

type_synonym vec = "real list"
type_synonym mat = "real list list"

text \<open>\<^verbatim>\<open>m.size()[1]\<close> of a two-dimensional tensor with at least one row.\<close>

definition ncols :: "'a list list \<Rightarrow> nat" where
  "ncols m = (case m of [] \<Rightarrow> 0 | r # rs \<Rightarrow> length r)"

definition rect :: "'a list list \<Rightarrow> nat \<Rightarrow> nat \<Rightarrow> bool" where
  "rect m r c = (length m = r \<and> list_all (\<lambda>row. length row = c) m)"

text \<open>
  Broadcasting of two sizes along one dimension: equal sizes stay, a size of 1 is
  stretched to the other one, anything else is the library's RuntimeError.
\<close>

definition broadcast_size :: "nat \<Rightarrow> nat \<Rightarrow> error + nat" where
  "broadcast_size a b =
     (if a = b then Inr a else if a = 1 then Inr b else if b = 1 then Inr a
      else Inl RuntimeError)"

definition expand :: "nat \<Rightarrow> 'a list \<Rightarrow> 'a list" where
  "expand n xs = (if length xs = n then xs else replicate n (hd xs))"

text \<open>Elementwise binary operations (\<^verbatim>\<open>+\<close>, \<^verbatim>\<open>-\<close>) with broadcasting.\<close>

definition tensor_op1 :: "(real \<Rightarrow> real \<Rightarrow> real) \<Rightarrow> vec \<Rightarrow> vec \<Rightarrow> error + vec" where
  "tensor_op1 f a b =
     ebind (broadcast_size (length a) (length b))
       (\<lambda>n. Inr (map2 f (expand n a) (expand n b)))"

definition tensor_op2 :: "(real \<Rightarrow> real \<Rightarrow> real) \<Rightarrow> mat \<Rightarrow> mat \<Rightarrow> error + mat" where
  "tensor_op2 f a b =
     ebind (broadcast_size (length a) (length b)) (\<lambda>r.
     ebind (broadcast_size (ncols a) (ncols b)) (\<lambda>c.
       Inr (map2 (\<lambda>x y. map2 f (expand c x) (expand c y)) (expand r a) (expand r b))))"

text \<open>
  An index into a dimension of size \<open>n\<close>: Python and the tensor library count a negative
  index from the end and raise IndexError outside \<open>[-n, n)\<close>.
\<close>

definition norm_index :: "nat \<Rightarrow> int \<Rightarrow> error + nat" where
  "norm_index n i =
     (if 0 \<le> i \<and> i < int n then Inr (nat i)
      else if - int n \<le> i \<and> i < 0 then Inr (nat (i + int n))
      else Inl IndexError)"

definition item2 :: "mat \<Rightarrow> nat \<Rightarrow> nat \<Rightarrow> error + real" where
  "item2 m i j =
     (if i < length m \<and> j < length (m ! i) then Inr (m ! i ! j) else Inl IndexError)"

text \<open>
  \<^verbatim>\<open>torch.max(m, 1)\<close>: for every row the largest entry and the index of its first
  occurrence; a row without entries has no maximum and the call raises.
\<close>

fun max_scan :: "real \<Rightarrow> nat \<Rightarrow> nat \<Rightarrow> real list \<Rightarrow> real \<times> nat" where
  "max_scan best bi i [] = (best, bi)"
| "max_scan best bi i (x # xs) =
     (if best < x then max_scan x i (Suc i) xs else max_scan best bi (Suc i) xs)"

definition max_row :: "real list \<Rightarrow> error + (real \<times> nat)" where
  "max_row row = (case row of [] \<Rightarrow> Inl IndexError | x # xs \<Rightarrow> Inr (max_scan x 0 1 xs))"

definition max_dim1 :: "mat \<Rightarrow> error + (real list \<times> nat list)" where
  "max_dim1 m = ebind (emap max_row m) (\<lambda>ps. Inr (map fst ps, map snd ps))"

subsection \<open>The helpers \<^verbatim>\<open>argmax\<close> and \<^verbatim>\<open>log_sum_exp\<close>\<close>

text \<open>
  \<^verbatim>\<open>_, idx = torch.max(vec, 1); return idx.view(-1).data.tolist()[0]\<close>
\<close>

definition argmax :: "mat \<Rightarrow> error + nat" where
  "argmax vec =
     ebind (max_dim1 vec) (\<lambda>(vals, idx).
       case idx of [] \<Rightarrow> Inl IndexError | i # rest \<Rightarrow> Inr i)"

text \<open>
  \<^verbatim>\<open>max_score = vec[0, argmax(vec)]\<close>,
  \<^verbatim>\<open>max_score_broadcast = max_score.view(1, -1).expand(1, vec.size()[1])\<close>,
  \<^verbatim>\<open>return max_score + torch.log(torch.sum(torch.exp(vec - max_score_broadcast)))\<close>
\<close>

definition log_sum_exp :: "mat \<Rightarrow> error + real" where
  "log_sum_exp vec =
     ebind (argmax vec) (\<lambda>i.
     ebind (item2 vec 0 i) (\<lambda>max_score.
       let max_score_broadcast = [replicate (ncols vec) max_score] in
       ebind (tensor_op2 (-) vec max_score_broadcast) (\<lambda>d.
         Inr (max_score + ln (sum_list (map exp (concat d)))))))"

subsection \<open>The model object\<close>

text \<open>
  The fields of \<^verbatim>\<open>self\<close> the CRF methods read. The constructor assigns
  \<^verbatim>\<open>START_TAG\<close>, \<^verbatim>\<open>STOP_TAG\<close>, \<^verbatim>\<open>tag2idx\<close>, \<^verbatim>\<open>n_tag\<close> and
  \<^verbatim>\<open>transitions\<close>. The methods also read \<^verbatim>\<open>size_tag\<close>, \<^verbatim>\<open>tagset_size\<close>
  and \<^verbatim>\<open>tag_to_ix\<close>, which no code of the file assigns: they are fields whose values
  the caller supplies.
\<close>

record model =
  START_TAG :: string
  STOP_TAG :: string
  tag2idx :: "string \<rightharpoonup> nat"
  n_tag :: nat
  transitions :: mat
  size_tag :: nat
  tagset_size :: nat
  tag_to_ix :: "string \<rightharpoonup> nat"

definition lookup :: "(string \<rightharpoonup> nat) \<Rightarrow> string \<Rightarrow> error + nat" where
  "lookup d k = (case d k of None \<Rightarrow> Inl KeyError | Some i \<Rightarrow> Inr i)"

definition setitem :: "'a list \<Rightarrow> nat \<Rightarrow> 'a \<Rightarrow> error + 'a list" where
  "setitem xs i v = (if i < length xs then Inr (xs[i := v]) else Inl IndexError)"

definition getitem :: "'a list \<Rightarrow> nat \<Rightarrow> error + 'a" where
  "getitem xs i = (if i < length xs then Inr (xs ! i) else Inl IndexError)"

text \<open>
  The constructor's transition table (lines 140 to 142): zeros, then the row of the
  start tag and the column of the stop tag set to -10000.
\<close>

definition init_transitions :: "nat \<Rightarrow> nat \<Rightarrow> nat \<Rightarrow> error + mat" where
  "init_transitions n start stop =
     (let z = replicate n (replicate n (0::real)) in
      ebind (setitem z start (replicate n (-10000))) (\<lambda>z1.
        if stop < n then Inr (map (\<lambda>row. row[stop := -10000]) z1)
        else Inl IndexError))"

subsection \<open>\<^verbatim>\<open>forward_alg\<close>\<close>

text \<open>
  Lines 263 to 270, the log-sum-exp along dimension 1 written out in the loop body:
  \<^verbatim>\<open>max_tag_var, _ = torch.max(tag_var, dim=1)\<close>,
  \<^verbatim>\<open>tag_var = tag_var - max_tag_var.view(-1, 1)\<close>,
  \<^verbatim>\<open>forward_var = max_tag_var + torch.log(torch.sum(torch.exp(tag_var), dim=1)).view(1, -1)\<close>.
\<close>

definition stable_lse_dim1 :: "mat \<Rightarrow> error + vec" where
  "stable_lse_dim1 tag_var =
     ebind (max_dim1 tag_var) (\<lambda>(max_tag_var, idx).
     ebind (tensor_op2 (-) tag_var (map (\<lambda>x. [x]) max_tag_var)) (\<lambda>tag_var'.
     ebind (tensor_op2 (+) [max_tag_var]
              [map (\<lambda>row. ln (sum_list (map exp row))) tag_var']) (\<lambda>forward_var.
       getitem forward_var 0)))"

text \<open>
  One pass of the loop over the rows of \<^verbatim>\<open>feats\<close> (lines 255 to 270);
  \<^verbatim>\<open>forward_var\<close> is a tensor with one row, kept as that row.
\<close>

definition forward_step :: "mat \<Rightarrow> vec \<Rightarrow> vec \<Rightarrow> error + vec" where
  "forward_step trs forward_var feat =
     (let emit_score = map (\<lambda>x. [x]) feat in
      ebind (tensor_op2 (+) [forward_var] trs) (\<lambda>s.
      ebind (tensor_op2 (+) s emit_score) (\<lambda>tag_var.
        stable_lse_dim1 tag_var)))"

fun forward_loop :: "mat \<Rightarrow> vec \<Rightarrow> mat \<Rightarrow> error + vec" where
  "forward_loop trs forward_var [] = Inr forward_var"
| "forward_loop trs forward_var (feat # feats) =
     ebind (forward_step trs forward_var feat) (\<lambda>forward_var'.
       forward_loop trs forward_var' feats)"

definition forward_alg :: "model \<Rightarrow> mat \<Rightarrow> error + real" where
  "forward_alg self feats =
     (let init_alphas = replicate (size_tag self) (-10000) in
      ebind (lookup (tag2idx self) (START_TAG self)) (\<lambda>start.
      ebind (setitem init_alphas start 0) (\<lambda>init_alphas.
      ebind (forward_loop (transitions self) init_alphas feats) (\<lambda>forward_var.
      ebind (lookup (tag2idx self) (STOP_TAG self)) (\<lambda>stop.
      ebind (getitem (transitions self) stop) (\<lambda>row.
      ebind (tensor_op2 (+) [forward_var] [row]) (\<lambda>terminal_var.
        log_sum_exp terminal_var)))))))"

subsection \<open>\<^verbatim>\<open>score_sentences\<close>\<close>

text \<open>
  Indexing a matrix with two index tensors, \<^verbatim>\<open>m[rows, cols]\<close>: the index tensors are
  broadcast against each other (a mismatch is an IndexError), and every pair selects
  one entry, negative indices counting from the end.
\<close>

definition index2 :: "mat \<Rightarrow> int list \<Rightarrow> int list \<Rightarrow> error + vec" where
  "index2 m rows cols =
     (case broadcast_size (length rows) (length cols) of
        Inl e \<Rightarrow> Inl IndexError
      | Inr n \<Rightarrow>
          emap (\<lambda>(i, j).
                 ebind (norm_index (length m) i) (\<lambda>i'.
                 ebind (norm_index (ncols m) j) (\<lambda>j'. Inr (m ! i' ! j'))))
               (zip (expand n rows) (expand n cols)))"

definition score_sentences :: "model \<Rightarrow> mat \<Rightarrow> int list \<Rightarrow> error + real" where
  "score_sentences self feats tags =
     (let r = map int [0..<length feats] in
      ebind (lookup (tag2idx self) (START_TAG self)) (\<lambda>start.
      let pad_start_tags = int start # tags in
      ebind (lookup (tag2idx self) (STOP_TAG self)) (\<lambda>stop.
      let pad_stop_tags = tags @ [int stop] in
      ebind (index2 (transitions self) pad_stop_tags pad_start_tags) (\<lambda>tr.
      ebind (index2 feats r tags) (\<lambda>em.
        Inr (sum_list tr + sum_list em))))))"

subsection \<open>\<^verbatim>\<open>viterbi_decode\<close>\<close>

text \<open>
  Two expressions of the method are ill-formed for the tensor library. Line 300 reads
  the attribute \<^verbatim>\<open>re\<close> of a tensor, which tensors do not have (AttributeError), and
  line 309 calls \<^verbatim>\<open>torch.FloatTensor\<close> with the keyword arguments
  \<^verbatim>\<open>require_grad\<close> and \<^verbatim>\<open>device\<close>, which that constructor does not take
  (TypeError).
\<close>

definition tensor_re :: "mat \<Rightarrow> error + mat" where
  "tensor_re t = Inl AttributeError"

definition FloatTensor_kw :: "vec \<Rightarrow> error + vec" where
  "FloatTensor_kw a = Inl TypeError"

text \<open>
  The method is first embedded with these two expressions as parameters \<open>re\<close> and
  \<open>ft\<close>, so that the rest of its text is embedded as it stands.

  \<^verbatim>\<open>forward_var.view(1, -1).expand(n, n)\<close>: the row is repeated \<open>n\<close> times; its length
  has to be \<open>n\<close> or 1.
\<close>

definition expand2 :: "vec \<Rightarrow> nat \<Rightarrow> nat \<Rightarrow> error + mat" where
  "expand2 v r c =
     (if length v = c \<or> length v = 1 then Inr (replicate r (expand c v))
      else Inl RuntimeError)"

text \<open>
  \<^verbatim>\<open>bptrs_t.squeeze()\<close> followed by \<^verbatim>\<open>len(bptrs_t)\<close>: a tensor with a single entry
  is squeezed to a scalar, which has no length.
\<close>

definition squeeze_len :: "nat list \<Rightarrow> error + nat list" where
  "squeeze_len b = (if length b = 1 then Inl TypeError else Inr b)"

text \<open>One pass of the loop, lines 304 to 314; the result is the new \<^verbatim>\<open>forward_var\<close>
  and the backpointers of this step.\<close>

definition viterbi_step ::
  "(vec \<Rightarrow> error + vec) \<Rightarrow> model \<Rightarrow> vec \<Rightarrow> vec \<Rightarrow> error + (vec \<times> nat list)" where
  "viterbi_step ft self forward_var feat =
     ebind (expand2 forward_var (tagset_size self) (tagset_size self)) (\<lambda>e.
     ebind (tensor_op2 (+) e (transitions self)) (\<lambda>next_tag_var.
     ebind (max_dim1 next_tag_var) (\<lambda>(vals, bptrs).
     ebind (squeeze_len bptrs) (\<lambda>bptrs_t.
     ebind (emap (\<lambda>(i, j). item2 next_tag_var i j)
              (zip [0..<length bptrs_t] bptrs_t)) (\<lambda>viterbivars.
     ebind (ft viterbivars) (\<lambda>viterbivars_t.
     ebind (tensor_op1 (+) viterbivars_t feat) (\<lambda>forward_var'.
       Inr (forward_var', bptrs_t))))))))"

fun viterbi_loop ::
  "(vec \<Rightarrow> error + vec) \<Rightarrow> model \<Rightarrow> vec \<Rightarrow> mat \<Rightarrow> error + (vec \<times> nat list list)" where
  "viterbi_loop ft self forward_var [] = Inr (forward_var, [])"
| "viterbi_loop ft self forward_var (feat # feats) =
     ebind (viterbi_step ft self forward_var feat) (\<lambda>(forward_var', bptrs_t).
     ebind (viterbi_loop ft self forward_var' feats) (\<lambda>(fv, backpointers).
       Inr (fv, bptrs_t # backpointers)))"

text \<open>
  Lines 325 to 327: the walk over \<^verbatim>\<open>reversed(backpointers)\<close>; the result is the list
  of the tags appended to \<^verbatim>\<open>best_path\<close>.
\<close>

fun follow :: "nat \<Rightarrow> nat list list \<Rightarrow> error + nat list" where
  "follow best_tag_id [] = Inr []"
| "follow best_tag_id (bptrs_t # rest) =
     ebind (getitem bptrs_t best_tag_id) (\<lambda>b.
     ebind (follow b rest) (\<lambda>p. Inr (b # p)))"

text \<open>
  Lines 329 to 333: pop the last tag of \<^verbatim>\<open>best_path\<close>, assert that it is the start
  tag, reverse the rest.
\<close>

definition pop_start :: "nat list \<Rightarrow> nat \<Rightarrow> error + nat list" where
  "pop_start best_path start =
     (if best_path = [] then Inl IndexError
      else if last best_path = start then Inr (rev (butlast best_path))
      else Inl AssertionError)"

text \<open>
  The score returned is a scalar when the loop ran at least once. Without a pass of the
  loop \<^verbatim>\<open>forward_var\<close> is still the two-dimensional tensor of line 300, so that
  \<^verbatim>\<open>terminal_var\<close> is two-dimensional, the writes of lines 318 and 319 fill whole rows,
  \<^verbatim>\<open>argmax\<close> sees a three-dimensional tensor, whose maximum along dimension 1 is taken
  column by column, and \<^verbatim>\<open>terminal_var[best_tag_id]\<close> is a row.
\<close>

datatype score = Scalar real | Row vec

definition viterbi_decode_with ::
  "(mat \<Rightarrow> error + mat) \<Rightarrow> (vec \<Rightarrow> error + vec) \<Rightarrow> model \<Rightarrow> mat \<Rightarrow>
     error + (score \<times> nat list)" where
  "viterbi_decode_with re ft self feats =
     (let init_vvars = replicate (tagset_size self) (-10000) in
      ebind (lookup (tag_to_ix self) (START_TAG self)) (\<lambda>start0.
      ebind (setitem init_vvars start0 0) (\<lambda>init_vvars.
      ebind (re [init_vvars]) (\<lambda>forward_var0.
      ebind (viterbi_loop ft self (concat forward_var0) feats) (\<lambda>(forward_var, backpointers).
      ebind (lookup (tag2idx self) (STOP_TAG self)) (\<lambda>stop.
      ebind (getitem (transitions self) stop) (\<lambda>row.
        if feats = [] then
          ebind (tensor_op2 (+) forward_var0 [row]) (\<lambda>terminal_var.
          ebind (setitem terminal_var stop (replicate (ncols terminal_var) (-10000))) (\<lambda>t1.
          ebind (lookup (tag2idx self) (START_TAG self)) (\<lambda>start.
          ebind (setitem t1 start (replicate (ncols terminal_var) (-10000))) (\<lambda>t2.
          ebind (emap (\<lambda>r. getitem r 0) t2) (\<lambda>column0.
          ebind (max_row column0) (\<lambda>(v, best_tag_id).
          ebind (getitem t2 best_tag_id) (\<lambda>path_score.
          ebind (pop_start [best_tag_id] start) (\<lambda>best_path.
            Inr (Row path_score, best_path)))))))))
        else
          ebind (tensor_op1 (+) forward_var row) (\<lambda>terminal_var.
          ebind (setitem terminal_var stop (-10000)) (\<lambda>t1.
          ebind (lookup (tag2idx self) (START_TAG self)) (\<lambda>start.
          ebind (setitem t1 start (-10000)) (\<lambda>t2.
          ebind (argmax [t2]) (\<lambda>best_tag_id.
          ebind (getitem t2 best_tag_id) (\<lambda>path_score.
          ebind (follow best_tag_id (rev backpointers)) (\<lambda>p.
          ebind (pop_start (best_tag_id # p) start) (\<lambda>best_path.
            Inr (Scalar path_score, best_path))))))))))))))))"

text \<open>The method as the file has it.\<close>

definition viterbi_decode :: "model \<Rightarrow> mat \<Rightarrow> error + (score \<times> nat list)" where
  "viterbi_decode self feats = viterbi_decode_with tensor_re FloatTensor_kw self feats"

subsection \<open>The gold score in the words of the specification\<close>

text \<open>
  The sum of the transition scores of the consecutive pairs of a padded sequence, entry
  \<open>(i, j)\<close> of the table being the score of going from tag \<open>j\<close> to tag \<open>i\<close>.
\<close>

fun pair_scores :: "mat \<Rightarrow> nat list \<Rightarrow> real" where
  "pair_scores A (a # b # rest) = A ! b ! a + pair_scores A (b # rest)"
| "pair_scores A [a] = 0"
| "pair_scores A [] = 0"

text \<open>The sum of the emission scores \<open>E[t][tags[t]]\<close> over the positions \<open>t\<close>.\<close>

fun emission_scores :: "mat \<Rightarrow> nat list \<Rightarrow> real" where
  "emission_scores (e # E) (t # ts) = e ! t + emission_scores E ts"
| "emission_scores E ts = 0"

definition gold_score :: "mat \<Rightarrow> mat \<Rightarrow> nat \<Rightarrow> nat \<Rightarrow> nat list \<Rightarrow> real" where
  "gold_score A E start stop tags =
     pair_scores A (start # tags @ [stop]) + emission_scores E tags"

subsection \<open>Well-formed inputs\<close>

text \<open>
  A model with \<open>T\<close> tags, \<open>T \<ge> 2\<close>, a square transition table, and distinct indices of
  the start and the stop tag.
\<close>

definition wf_model :: "model \<Rightarrow> nat \<Rightarrow> nat \<Rightarrow> nat \<Rightarrow> bool" where
  "wf_model self T start stop =
     (2 \<le> T \<and> n_tag self = T \<and> size_tag self = T \<and> rect (transitions self) T T \<and>
      tag2idx self (START_TAG self) = Some start \<and>
      tag2idx self (STOP_TAG self) = Some stop \<and>
      start < T \<and> stop < T \<and> start \<noteq> stop)"

definition valid_tags :: "nat \<Rightarrow> nat \<Rightarrow> nat list \<Rightarrow> bool" where
  "valid_tags T L tags = (length tags = L \<and> list_all (\<lambda>t. t < T) tags)"

subsection \<open>A model with the tags START, O and STOP\<close>

definition ex_tag2idx :: "string \<rightharpoonup> nat" where
  "ex_tag2idx = [''<START>'' \<mapsto> 0, ''O'' \<mapsto> 1, ''<STOP>'' \<mapsto> 2]"

text \<open>
  The transition table of the scenario: the constructor's table for three tags with the
  score 5 from START to O and from O to STOP.
\<close>

definition ex_transitions :: mat where
  "ex_transitions = [[-10000, -10000, -10000], [5, 0, -10000], [0, 5, -10000]]"

definition ex_model :: model where
  "ex_model = \<lparr>START_TAG = ''<START>'', STOP_TAG = ''<STOP>'', tag2idx = ex_tag2idx,
     n_tag = 3, transitions = ex_transitions, size_tag = 3, tagset_size = 3,
     tag_to_ix = ex_tag2idx\<rparr>"

definition ex_feats :: mat where
  "ex_feats = [[0, 1, 0], [0, 2, 0]]"

subsection \<open>The methods on a store\<close>

text \<open>
  To follow the in-place writes, tensors that a statement writes into live in a store:
  a cell per tensor storage, addressed by a number; \<open>fresh\<close> is the first address not
  yet in use. The transition table of the model and the emission matrix are cells the
  caller owns. \<^verbatim>\<open>torch.Tensor(...)\<close>, \<^verbatim>\<open>clone()\<close> and the arithmetic operations create
  a new storage; indexing (\<^verbatim>\<open>t[0]\<close>), \<^verbatim>\<open>view\<close> and \<^verbatim>\<open>.data\<close> denote the storage of
  the tensor they are applied to. A one-dimensional tensor is stored as a single row.
  A computation takes the store and returns a result or an error together with the
  store it leaves behind.
\<close>

record heap =
  cells :: "nat \<Rightarrow> mat"
  fresh :: nat

type_synonym 'a prog = "heap \<Rightarrow> (error + 'a) \<times> heap"

definition lift :: "error + 'a \<Rightarrow> 'a prog" where
  "lift r h = (r, h)"

definition sbind :: "'a prog \<Rightarrow> ('a \<Rightarrow> 'b prog) \<Rightarrow> 'b prog" where
  "sbind p f h = (case p h of (Inl e, h') \<Rightarrow> (Inl e, h') | (Inr v, h') \<Rightarrow> f v h')"

definition alloc :: "mat \<Rightarrow> nat prog" where
  "alloc m h = (Inr (fresh h), h\<lparr>cells := (cells h)(fresh h := m), fresh := Suc (fresh h)\<rparr>)"

definition load :: "nat \<Rightarrow> mat prog" where
  "load a h = (Inr (cells h a), h)"

text \<open>\<^verbatim>\<open>t[i][j] = x\<close> on the storage at address \<open>a\<close>.\<close>

definition store_elem :: "nat \<Rightarrow> nat \<Rightarrow> nat \<Rightarrow> real \<Rightarrow> unit prog" where
  "store_elem a i j x h =
     (let m = cells h a in
      if i < length m \<and> j < length (m ! i)
      then (Inr (), h\<lparr>cells := (cells h)(a := m[i := (m ! i)[j := x]])\<rparr>)
      else (Inl IndexError, h))"

text \<open>\<^verbatim>\<open>t[i] = x\<close> on a two-dimensional tensor: row \<open>i\<close> of the storage becomes the row
  \<open>xs\<close>, which the caller fills with \<open>x\<close>.\<close>

definition store_row :: "nat \<Rightarrow> nat \<Rightarrow> vec \<Rightarrow> unit prog" where
  "store_row a i xs h =
     (let m = cells h a in
      if i < length m
      then (Inr (), h\<lparr>cells := (cells h)(a := m[i := xs])\<rparr>)
      else (Inl IndexError, h))"

text \<open>
  \<^verbatim>\<open>forward_alg\<close>: \<^verbatim>\<open>init_alphas\<close> is a new tensor, written at line 245;
  \<^verbatim>\<open>forward_var\<close> is its clone. The loop and the terminal step only read and build new
  tensors, so they are the computation of the sections above on the contents of the
  cells \<open>aT\<close> (transition table) and \<open>aF\<close> (emission matrix).
\<close>

definition forward_alg_h :: "model \<Rightarrow> nat \<Rightarrow> nat \<Rightarrow> real prog" where
  "forward_alg_h self aT aF =
     sbind (alloc [replicate (size_tag self) (-10000)]) (\<lambda>init_alphas.
     sbind (lift (lookup (tag2idx self) (START_TAG self))) (\<lambda>start.
     sbind (store_elem init_alphas 0 start 0) (\<lambda>u.
     sbind (load init_alphas) (\<lambda>v.
     sbind (alloc v) (\<lambda>forward_var.
     sbind (load forward_var) (\<lambda>fv.
     sbind (load aT) (\<lambda>A.
     sbind (load aF) (\<lambda>feats.
       lift (ebind (forward_loop A (concat fv) feats) (\<lambda>forward_var.
             ebind (lookup (tag2idx self) (STOP_TAG self)) (\<lambda>stop.
             ebind (getitem A stop) (\<lambda>row.
             ebind (tensor_op2 (+) [forward_var] [row]) (\<lambda>terminal_var.
               log_sum_exp terminal_var)))))))))))))"

text \<open>\<^verbatim>\<open>score_sentences\<close> reads the two cells and writes nothing.\<close>

definition score_sentences_h :: "model \<Rightarrow> nat \<Rightarrow> nat \<Rightarrow> int list \<Rightarrow> real prog" where
  "score_sentences_h self aT aF tags =
     sbind (load aT) (\<lambda>A.
     sbind (load aF) (\<lambda>feats.
       lift (score_sentences (self\<lparr>transitions := A\<rparr>) feats tags)))"

text \<open>
  \<^verbatim>\<open>viterbi_decode\<close>: \<^verbatim>\<open>init_vvars\<close> is a new tensor, written at line 297;
  \<^verbatim>\<open>terminal_var\<close> is the new tensor the addition of line 317 creates, written through
  \<^verbatim>\<open>.data\<close> at lines 318 and 319.
\<close>

definition viterbi_decode_with_h ::
  "(mat \<Rightarrow> error + mat) \<Rightarrow> (vec \<Rightarrow> error + vec) \<Rightarrow> model \<Rightarrow> nat \<Rightarrow> nat \<Rightarrow>
     (score \<times> nat list) prog" where
  "viterbi_decode_with_h re ft self aT aF =
     sbind (alloc [replicate (tagset_size self) (-10000)]) (\<lambda>init_vvars.
     sbind (lift (lookup (tag_to_ix self) (START_TAG self))) (\<lambda>start0.
     sbind (store_elem init_vvars 0 start0 0) (\<lambda>u.
     sbind (load init_vvars) (\<lambda>iv.
     sbind (lift (re iv)) (\<lambda>forward_var0.
     sbind (load aT) (\<lambda>A.
     sbind (load aF) (\<lambda>feats.
     sbind (lift (viterbi_loop ft (self\<lparr>transitions := A\<rparr>) (concat forward_var0) feats))
       (\<lambda>(forward_var, backpointers).
     sbind (lift (lookup (tag2idx self) (STOP_TAG self))) (\<lambda>stop.
     sbind (lift (getitem A stop)) (\<lambda>row.
       if feats = [] then
         sbind (lift (tensor_op2 (+) forward_var0 [row])) (\<lambda>tv.
         sbind (alloc tv) (\<lambda>terminal_var.
         sbind (store_row terminal_var stop (replicate (ncols tv) (-10000))) (\<lambda>u.
         sbind (lift (lookup (tag2idx self) (START_TAG self))) (\<lambda>start.
         sbind (store_row terminal_var start (replicate (ncols tv) (-10000))) (\<lambda>u.
         sbind (load terminal_var) (\<lambda>t2.
           lift (ebind (emap (\<lambda>r. getitem r 0) t2) (\<lambda>column0.
                 ebind (max_row column0) (\<lambda>(v, best_tag_id).
                 ebind (getitem t2 best_tag_id) (\<lambda>path_score.
                 ebind (pop_start [best_tag_id] start) (\<lambda>best_path.
                   Inr (Row path_score, best_path))))))))))))
       else
         sbind (lift (tensor_op1 (+) forward_var row)) (\<lambda>tv.
         sbind (alloc [tv]) (\<lambda>terminal_var.
         sbind (store_elem terminal_var 0 stop (-10000)) (\<lambda>u.
         sbind (lift (lookup (tag2idx self) (START_TAG self))) (\<lambda>start.
         sbind (store_elem terminal_var 0 start (-10000)) (\<lambda>u.
         sbind (load terminal_var) (\<lambda>t2.
           lift (ebind (argmax t2) (\<lambda>best_tag_id.
                 ebind (getitem (concat t2) best_tag_id) (\<lambda>path_score.
                 ebind (follow best_tag_id (rev backpointers)) (\<lambda>p.
                 ebind (pop_start (best_tag_id # p) start) (\<lambda>best_path.
                   Inr (Scalar path_score, best_path))))))))))))))))))))))"

definition viterbi_decode_h :: "model \<Rightarrow> nat \<Rightarrow> nat \<Rightarrow> (score \<times> nat list) prog" where
  "viterbi_decode_h self aT aF = viterbi_decode_with_h tensor_re FloatTensor_kw self aT aF"

text \<open>
  A computation preserves the cells below \<open>n\<close> when, started on a store in which these
  addresses are in use, it leaves their contents as they are and keeps them in use.
\<close>

definition preserves :: "nat \<Rightarrow> 'a prog \<Rightarrow> bool" where
  "preserves n p =
     (\<forall>h. n \<le> fresh h \<longrightarrow>
        n \<le> fresh (snd (p h)) \<and> (\<forall>a<n. cells (snd (p h)) a = cells h a))"

text \<open>A store with the transition table of the example at address 0 and its emission
  matrix at address 1.\<close>

definition ex_heap :: heap where
  "ex_heap = \<lparr>cells = (\<lambda>a. if a = 0 then ex_transitions else if a = 1 then ex_feats else []),
     fresh = 2\<rparr>"

subsection \<open>The value computations in 32-bit floating point\<close>

text \<open>
  The tensors of the source hold 32-bit floats (\<^verbatim>\<open>torch.Tensor\<close>, the output of the
  linear layer, the parameter \<^verbatim>\<open>transitions\<close>). The definitions above compute with
  exact real numbers; the ones below round every arithmetic result to the nearest
  binary32 number, ties to the even significand: 24 significant bits, and a spacing of
  \<open>2\<^sup>-\<^sup>1\<^sup>4\<^sup>9\<close> near zero. A float is the real number it denotes. Results beyond the
  largest finite float (overflow to infinity) are not modelled: the exponent is taken as
  unbounded above. \<^verbatim>\<open>torch.exp\<close> and \<^verbatim>\<open>torch.log\<close> are taken as correctly rounded
  and \<^verbatim>\<open>torch.sum\<close> as adding from left to right; these two choices play no role on
  the inputs evaluated below, where every exponential is that of 0 or of a number below
  -9000 and every sum has at most one summand that is not 0.
\<close>

text \<open>Rounding a real number to an integer, a tie going to the even one.\<close>

definition rhe :: "real \<Rightarrow> int" where
  "rhe x =
     (let f = \<lfloor>x\<rfloor> in
      if x - of_int f < 1 / 2 then f
      else if 1 / 2 < x - of_int f then f + 1
      else if even f then f else f + 1)"

text \<open>The exponent of the spacing of the binary32 numbers around \<open>x\<close>.\<close>

definition ulp_exp :: "real \<Rightarrow> int" where
  "ulp_exp x = max (\<lfloor>log 2 \<bar>x\<bar>\<rfloor> - 23) (- 149)"

definition fl32 :: "real \<Rightarrow> real" where
  "fl32 x =
     (if x = 0 then 0
      else of_int (rhe (x / 2 powr of_int (ulp_exp x))) * 2 powr of_int (ulp_exp x))"

definition fadd :: "real \<Rightarrow> real \<Rightarrow> real" where
  "fadd a b = fl32 (a + b)"

definition fsub :: "real \<Rightarrow> real \<Rightarrow> real" where
  "fsub a b = fl32 (a - b)"

definition fexp :: "real \<Rightarrow> real" where
  "fexp x = fl32 (exp x)"

definition fln :: "real \<Rightarrow> real" where
  "fln x = fl32 (ln x)"

definition fsum :: "real list \<Rightarrow> real" where
  "fsum xs = foldl fadd 0 xs"

text \<open>\<^verbatim>\<open>log_sum_exp\<close>, \<^verbatim>\<open>forward_alg\<close> and \<^verbatim>\<open>score_sentences\<close> once more, statement by
  statement as above, with the rounded operations.\<close>

definition log_sum_exp32 :: "mat \<Rightarrow> error + real" where
  "log_sum_exp32 vec =
     ebind (argmax vec) (\<lambda>i.
     ebind (item2 vec 0 i) (\<lambda>max_score.
       let max_score_broadcast = [replicate (ncols vec) max_score] in
       ebind (tensor_op2 fsub vec max_score_broadcast) (\<lambda>d.
         Inr (fadd max_score (fln (fsum (map fexp (concat d))))))))"

definition stable_lse_dim1_32 :: "mat \<Rightarrow> error + vec" where
  "stable_lse_dim1_32 tag_var =
     ebind (max_dim1 tag_var) (\<lambda>(max_tag_var, idx).
     ebind (tensor_op2 fsub tag_var (map (\<lambda>x. [x]) max_tag_var)) (\<lambda>tag_var'.
     ebind (tensor_op2 fadd [max_tag_var]
              [map (\<lambda>row. fln (fsum (map fexp row))) tag_var']) (\<lambda>forward_var.
       getitem forward_var 0)))"

definition forward_step32 :: "mat \<Rightarrow> vec \<Rightarrow> vec \<Rightarrow> error + vec" where
  "forward_step32 trs forward_var feat =
     (let emit_score = map (\<lambda>x. [x]) feat in
      ebind (tensor_op2 fadd [forward_var] trs) (\<lambda>s.
      ebind (tensor_op2 fadd s emit_score) (\<lambda>tag_var.
        stable_lse_dim1_32 tag_var)))"

fun forward_loop32 :: "mat \<Rightarrow> vec \<Rightarrow> mat \<Rightarrow> error + vec" where
  "forward_loop32 trs forward_var [] = Inr forward_var"
| "forward_loop32 trs forward_var (feat # feats) =
     ebind (forward_step32 trs forward_var feat) (\<lambda>forward_var'.
       forward_loop32 trs forward_var' feats)"

definition forward_alg32 :: "model \<Rightarrow> mat \<Rightarrow> error + real" where
  "forward_alg32 self feats =
     (let init_alphas = replicate (size_tag self) (-10000) in
      ebind (lookup (tag2idx self) (START_TAG self)) (\<lambda>start.
      ebind (setitem init_alphas start 0) (\<lambda>init_alphas.
      ebind (forward_loop32 (transitions self) init_alphas feats) (\<lambda>forward_var.
      ebind (lookup (tag2idx self) (STOP_TAG self)) (\<lambda>stop.
      ebind (getitem (transitions self) stop) (\<lambda>row.
      ebind (tensor_op2 fadd [forward_var] [row]) (\<lambda>terminal_var.
        log_sum_exp32 terminal_var)))))))"

definition score_sentences32 :: "model \<Rightarrow> mat \<Rightarrow> int list \<Rightarrow> error + real" where
  "score_sentences32 self feats tags =
     (let r = map int [0..<length feats] in
      ebind (lookup (tag2idx self) (START_TAG self)) (\<lambda>start.
      let pad_start_tags = int start # tags in
      ebind (lookup (tag2idx self) (STOP_TAG self)) (\<lambda>stop.
      let pad_stop_tags = tags @ [int stop] in
      ebind (index2 (transitions self) pad_stop_tags pad_start_tags) (\<lambda>tr.
      ebind (index2 feats r tags) (\<lambda>em.
        Inr (fadd (fsum tr) (fsum em)))))))"

text \<open>An emission matrix for the three tags with one large score, \<open>2\<^sup>2\<^sup>4\<close>, for the
  tag O at the first position.\<close>

definition big_feats :: mat where
  "big_feats = [[0, 16777216, 0], [0, 1, 0]]"

section \<open>Properties\<close>

lemma ebind_Inr [simp]: "ebind (Inr v) f = f v"
  by (simp add: ebind_def)

lemma ebind_Inl [simp]: "ebind (Inl e) f = Inl e"
  by (simp add: ebind_def)

lemma ebind_eq_Inr: "ebind r f = Inr y \<longleftrightarrow> (\<exists>v. r = Inr v \<and> f v = Inr y)"
  by (cases r) auto

lemma max_scan_value: "fst (max_scan b bi i xs) = fold max xs b"
proof (induction xs arbitrary: b bi i)
  case Nil
  show ?case by simp
next
  case (Cons x xs)
  show ?case
  proof (cases "b < x")
    case True
    then have "max x b = x" by simp
    with True Cons show ?thesis by simp
  next
    case False
    then have "max x b = b" by simp
    with False Cons show ?thesis by simp
  qed
qed

lemma max_scan_index:
  "length pre = i \<Longrightarrow> bi < i \<Longrightarrow> (pre @ xs) ! bi = b \<Longrightarrow>
   snd (max_scan b bi i xs) < length (pre @ xs) \<and>
   (pre @ xs) ! snd (max_scan b bi i xs) = fst (max_scan b bi i xs)"
proof (induction xs arbitrary: b bi i pre)
  case Nil
  then show ?case by simp
next
  case (Cons x xs)
  have len: "length (pre @ [x]) = Suc i" using Cons.prems by simp
  have app: "pre @ x # xs = (pre @ [x]) @ xs" by simp
  show ?case
  proof (cases "b < x")
    case True
    have "((pre @ [x]) @ xs) ! i = x" using Cons.prems(1) by (simp add: nth_append)
    from Cons.IH [OF len _ this] True show ?thesis
      unfolding app by simp
  next
    case False
    have "bi < Suc i" using Cons.prems by simp
    moreover have "((pre @ [x]) @ xs) ! bi = b" using Cons.prems by simp
    ultimately show ?thesis using Cons.IH [OF len, of bi b] False
      unfolding app by simp
  qed
qed

lemma max_row_Max:
  assumes "row \<noteq> []"
  shows "\<exists>k. max_row row = Inr (Max (set row), k) \<and> k < length row \<and> row ! k = Max (set row)"
proof -
  from assms obtain x xs where row: "row = x # xs" by (cases row) auto
  have v: "fst (max_scan x 0 1 xs) = Max (set row)"
    unfolding row max_scan_value by (rule Max.set_eq_fold [symmetric])
  have "snd (max_scan x 0 1 xs) < length ([x] @ xs) \<and>
        ([x] @ xs) ! snd (max_scan x 0 1 xs) = fst (max_scan x 0 1 xs)"
    by (rule max_scan_index) simp_all
  with v show ?thesis
    by (cases "max_scan x 0 1 xs") (simp add: max_row_def row)
qed

lemma map2_replicate: "length xs = n \<Longrightarrow> map2 f xs (replicate n c) = map (\<lambda>x. f x c) xs"
  by (induction xs arbitrary: n) auto

lemma sum_exp_nonneg: "0 \<le> (\<Sum>x\<leftarrow>v. exp (x::real))"
  by (rule sum_list_nonneg) auto

lemma sum_exp_pos: "v \<noteq> [] \<Longrightarrow> 0 < (\<Sum>x\<leftarrow>v. exp (x::real))"
proof (cases v)
  case Nil
  then show "v \<noteq> [] \<Longrightarrow> ?thesis" by simp
next
  case (Cons a w)
  have "0 < exp a + (\<Sum>x\<leftarrow>w. exp x)"
    by (rule add_pos_nonneg) (simp_all add: sum_exp_nonneg)
  then show ?thesis by (simp add: Cons)
qed

lemma sum_exp_shift: "(\<Sum>x\<leftarrow>v. exp (x - M)) = exp (- M) * (\<Sum>x\<leftarrow>v. exp (x::real))"
  by (induction v) (simp_all add: algebra_simps exp_diff exp_minus divide_inverse)

lemma lse_shift:
  assumes "v \<noteq> []"
  shows "M + ln (\<Sum>x\<leftarrow>v. exp (x - M)) = ln (\<Sum>x\<leftarrow>v. exp (x::real))"
proof -
  have "ln (exp (- M) * (\<Sum>x\<leftarrow>v. exp x)) = ln (exp (- M)) + ln (\<Sum>x\<leftarrow>v. exp x)"
    by (rule ln_mult_pos) (simp_all add: sum_exp_pos assms)
  then show ?thesis by (simp add: sum_exp_shift)
qed

lemma log_sum_exp_row:
  assumes "v \<noteq> []"
  shows "log_sum_exp [v] = Inr (Max (set v) + ln (\<Sum>x\<leftarrow>v. exp (x - Max (set v))))"
proof -
  from max_row_Max [OF assms] obtain k where
    k: "max_row v = Inr (Max (set v), k)" "k < length v" "v ! k = Max (set v)" by blast
  have "argmax [v] = Inr k"
    by (simp add: argmax_def max_dim1_def k)
  moreover have "item2 [v] 0 k = Inr (Max (set v))"
    using k by (simp add: item2_def)
  moreover have "tensor_op2 (-) [v] [replicate (length v) M] = Inr [map (\<lambda>x. x - M) v]" for M
    by (simp add: tensor_op2_def broadcast_size_def ncols_def expand_def map2_replicate)
  ultimately show ?thesis
    by (simp add: log_sum_exp_def ncols_def comp_def)
qed



lemma emap_Inr: "(\<And>x. x \<in> set xs \<Longrightarrow> f x = Inr (g x)) \<Longrightarrow> emap f xs = Inr (map g xs)"
  by (induction xs) simp_all

lemma emap_cong: "(\<And>x. x \<in> set xs \<Longrightarrow> f x = g x) \<Longrightarrow> emap f xs = emap g xs"
  by (induction xs) simp_all

lemma expand_same [simp]: "length xs = n \<Longrightarrow> expand n xs = xs"
  by (simp add: expand_def)

lemma expand_single [simp]: "expand n [x] = replicate n x"
  by (auto simp: expand_def)

lemma map2_map_same: "map2 g xs (map h xs) = map (\<lambda>x. g x (h x)) xs"
  by (induction xs) simp_all

lemma map2_map_map: "map2 g (map h xs) (map k xs) = map (\<lambda>x. g (h x) (k x)) xs"
  by (induction xs) simp_all

lemma broadcast_size_same [simp]: "broadcast_size n n = Inr n"
  by (simp add: broadcast_size_def)

lemma broadcast_size_1 [simp]: "broadcast_size n (Suc 0) = Inr n" "broadcast_size (Suc 0) n = Inr n"
  by (auto simp: broadcast_size_def)

lemma rect_row: "rect m r c \<Longrightarrow> row \<in> set m \<Longrightarrow> length row = c"
  by (simp add: rect_def list_all_iff)

lemma rect_ncols: "rect m r c \<Longrightarrow> 0 < r \<Longrightarrow> ncols m = c"
  by (cases m) (auto simp: rect_def ncols_def)

lemma max_row_nonempty:
  "row \<noteq> [] \<Longrightarrow> max_row row = Inr (Max (set row), snd (max_scan (hd row) 0 1 (tl row)))"
proof -
  assume "row \<noteq> []"
  then obtain x xs where row: "row = x # xs" by (cases row) auto
  have "fst (max_scan x 0 1 xs) = Max (set (x # xs))"
    unfolding max_scan_value by (rule Max.set_eq_fold [symmetric])
  then show ?thesis
    by (cases "max_scan x 0 1 xs") (simp add: max_row_def row)
qed

lemma max_dim1_rows:
  assumes "\<And>row. row \<in> set m \<Longrightarrow> row \<noteq> []"
  shows "max_dim1 m = Inr (map (\<lambda>row. Max (set row)) m,
                           map (\<lambda>row. snd (max_scan (hd row) 0 1 (tl row))) m)"
proof -
  have "emap max_row m =
        Inr (map (\<lambda>row. (Max (set row), snd (max_scan (hd row) 0 1 (tl row)))) m)"
    by (rule emap_Inr) (simp add: max_row_nonempty assms)
  then show ?thesis by (simp add: max_dim1_def comp_def)
qed

lemma sub_column:
  assumes "rect m r c"
  shows "tensor_op2 (-) m (map (\<lambda>row. [f row]) m) = Inr (map (\<lambda>row. map (\<lambda>x. x - f row) row) m)"
proof (cases m)
  case Nil
  then show ?thesis by (simp add: tensor_op2_def ncols_def)
next
  case (Cons a m')
  have len: "length m = r" using assms by (simp add: rect_def)
  have nc: "ncols m = c" using assms Cons by (auto simp: rect_def ncols_def)
  have nc1: "ncols (map (\<lambda>row. [f row]) m) = Suc 0" using Cons by (simp add: ncols_def)
  have row: "map2 (-) (expand c row) (expand c [f row]) = map (\<lambda>x. x - f row) row"
    if "row \<in> set m" for row
    using rect_row [OF assms that] by (simp add: map2_replicate)
  have rows: "map (\<lambda>row. map2 (-) (expand c row) (expand c [f row])) m =
              map (\<lambda>row. map (\<lambda>x. x - f row) row) m"
    by (rule map_cong [OF refl]) (rule row)
  have "tensor_op2 (-) m (map (\<lambda>row. [f row]) m) =
        Inr (map2 (\<lambda>x y. map2 (-) (expand c x) (expand c y)) m (map (\<lambda>row. [f row]) m))"
    by (simp add: tensor_op2_def nc nc1)
  then show ?thesis by (simp only: map2_map_same rows)
qed

lemma stable_lse_dim1_rows:
  assumes "rect m r c" and "0 < c"
  shows "stable_lse_dim1 m =
         Inr (map (\<lambda>row. Max (set row) + ln (\<Sum>x\<leftarrow>row. exp (x - Max (set row)))) m)"
proof -
  have ne: "row \<noteq> []" if "row \<in> set m" for row
    using rect_row [OF assms(1) that] assms(2) by auto
  have add: "tensor_op2 (+) [xs] [ys] = Inr [map2 (+) xs ys]" if "length xs = length ys" for xs ys
    using that by (simp add: tensor_op2_def ncols_def)
  have "stable_lse_dim1 m =
        Inr (map2 (+) (map (\<lambda>row. Max (set row)) m)
                      (map (\<lambda>row. ln (\<Sum>x\<leftarrow>row. exp (x - Max (set row)))) m))"
    by (simp add: stable_lse_dim1_def max_dim1_rows ne sub_column [OF assms(1)] comp_def
        add getitem_def)
  then show ?thesis by (simp only: map2_map_map)
qed


text \<open>
  Claim C10. On every matrix the log-sum-exp written out in the loop of
  \<^verbatim>\<open>forward_alg\<close> (lines 263 to 270) gives, row by row, what the helper
  \<^verbatim>\<open>log_sum_exp\<close> gives on that row; both raise when the rows have no entries.
\<close>

theorem stable_lse_dim1_is_log_sum_exp:
  "rect m r c \<Longrightarrow> stable_lse_dim1 m = emap (\<lambda>row. log_sum_exp [row]) m"
proof (cases "0 < c")
  case True
  assume r: "rect m r c"
  have "emap (\<lambda>row. log_sum_exp [row]) m =
        Inr (map (\<lambda>row. Max (set row) + ln (\<Sum>x\<leftarrow>row. exp (x - Max (set row)))) m)"
  proof (rule emap_Inr)
    fix row assume "row \<in> set m"
    then have "row \<noteq> []" using rect_row [OF r] True by auto
    then show "log_sum_exp [row] =
               Inr (Max (set row) + ln (\<Sum>x\<leftarrow>row. exp (x - Max (set row))))"
      by (rule log_sum_exp_row)
  qed
  then show ?thesis by (simp add: stable_lse_dim1_rows [OF r True])
next
  case False
  assume r: "rect m r c"
  show ?thesis
  proof (cases m)
    case Nil
    then show ?thesis
      by (simp add: stable_lse_dim1_def max_dim1_def tensor_op2_def ncols_def getitem_def)
  next
    case (Cons a m')
    then have "a = []" using r False by (simp add: rect_def)
    then show ?thesis
      by (simp add: Cons stable_lse_dim1_def max_dim1_def max_row_def log_sum_exp_def argmax_def)
  qed
qed

theorem stable_lse_dim1_is_log_sum_exp_witness:
  "rect [[1, 2], [4, 3 :: real]] 2 2 \<and>
   stable_lse_dim1 [[1, 2], [4, 3]] = emap (\<lambda>row. log_sum_exp [row]) [[1, 2], [4, 3]]"
  using stable_lse_dim1_is_log_sum_exp [of "[[1, 2], [4, 3]]" 2 2] by (simp add: rect_def)

lemma elem_le_sum_list:
  "(\<And>x. x \<in> set xs \<Longrightarrow> 0 \<le> (x::real)) \<Longrightarrow> i < length xs \<Longrightarrow> xs ! i \<le> sum_list xs"
proof (induction xs arbitrary: i)
  case Nil
  then show ?case by simp
next
  case (Cons a xs)
  have nn: "0 \<le> sum_list xs" by (rule sum_list_nonneg) (simp add: Cons.prems)
  show ?case
  proof (cases i)
    case 0
    then show ?thesis using nn by simp
  next
    case (Suc k)
    then have "xs ! k \<le> sum_list xs" using Cons.prems by (intro Cons.IH) auto
    moreover have "0 \<le> a" using Cons.prems by simp
    ultimately show ?thesis using Suc by simp
  qed
qed

lemma lse_ge_elem:
  assumes "i < length v"
  shows "v ! i \<le> ln (\<Sum>x\<leftarrow>v. exp (x::real))"
proof -
  have nn: "0 \<le> x" if "x \<in> set (map exp v)" for x :: real
    using that by auto
  have "map exp v ! i \<le> sum_list (map exp v)"
    by (rule elem_le_sum_list [OF nn]) (simp_all add: assms)
  then have le: "exp (v ! i) \<le> (\<Sum>x\<leftarrow>v. exp x)"
    using assms by simp
  have "ln (exp (v ! i)) \<le> ln (\<Sum>x\<leftarrow>v. exp x)"
    by (subst ln_le_cancel_iff) (simp_all add: le less_le_trans [OF exp_gt_zero le])
  then show ?thesis by simp
qed

lemma length_expand [simp]: "length (expand n xs) = n"
  by (simp add: expand_def)

lemma expand_nth:
  "i < n \<Longrightarrow> length xs = n \<or> length xs = 1 \<Longrightarrow>
   expand n xs ! i = xs ! (if length xs = 1 then 0 else i)"
  by (cases xs) (auto simp: expand_def)

lemma broadcast_size_Inr:
  "broadcast_size a b = Inr n \<Longrightarrow> (a = n \<or> a = 1) \<and> (b = n \<or> b = 1)"
  by (auto simp: broadcast_size_def split: if_splits)

text \<open>Entries of a broadcast operation on two matrices with at least one row each.\<close>

lemma tensor_op2_nth:
  assumes a: "rect a ra ca" and b: "rect b rb cb" and ra: "0 < ra" and rb: "0 < rb"
    and r: "broadcast_size ra rb = Inr r" and c: "broadcast_size ca cb = Inr c"
  shows "\<exists>m. tensor_op2 f a b = Inr m \<and> rect m r c \<and>
           (\<forall>i<r. \<forall>j<c. m ! i ! j =
              f (a ! (if ra = 1 then 0 else i) ! (if ca = 1 then 0 else j))
                (b ! (if rb = 1 then 0 else i) ! (if cb = 1 then 0 else j)))"
proof -
  let ?m = "map2 (\<lambda>x y. map2 f (expand c x) (expand c y)) (expand r a) (expand r b)"
  have la: "length a = ra" and lb: "length b = rb"
    using a b by (simp_all add: rect_def)
  have eq: "tensor_op2 f a b = Inr ?m"
    using r c by (simp add: tensor_op2_def la lb rect_ncols [OF a ra] rect_ncols [OF b rb])
  have rr: "ra = r \<or> ra = 1" "rb = r \<or> rb = 1" and cc: "ca = c \<or> ca = 1" "cb = c \<or> cb = 1"
    using broadcast_size_Inr [OF r] broadcast_size_Inr [OF c] by simp_all
  have rect: "rect ?m r c"
    by (auto simp: rect_def list_all_iff)
  have ent: "?m ! i ! j =
              f (a ! (if ra = 1 then 0 else i) ! (if ca = 1 then 0 else j))
                (b ! (if rb = 1 then 0 else i) ! (if cb = 1 then 0 else j))"
    if i: "i < r" and j: "j < c" for i j
  proof -
    let ?ia = "if ra = 1 then 0 else i" and ?ib = "if rb = 1 then 0 else i"
    have ia: "?ia < length a" and ib: "?ib < length b"
      using i rr ra rb la lb by auto
    have ea: "expand r a ! i = a ! ?ia" and eb: "expand r b ! i = b ! ?ib"
      using expand_nth [OF i, of a] expand_nth [OF i, of b] rr la lb by simp_all
    have lra: "length (a ! ?ia) = ca" and lrb: "length (b ! ?ib) = cb"
      using rect_row [OF a nth_mem [OF ia]] rect_row [OF b nth_mem [OF ib]] by simp_all
    have "?m ! i ! j = f (expand c (a ! ?ia) ! j) (expand c (b ! ?ib) ! j)"
      using i j by (simp add: ea eb)
    also have "expand c (a ! ?ia) ! j = a ! ?ia ! (if ca = 1 then 0 else j)"
      using expand_nth [OF j, of "a ! ?ia"] cc lra by simp
    also have "expand c (b ! ?ib) ! j = b ! ?ib ! (if cb = 1 then 0 else j)"
      using expand_nth [OF j, of "b ! ?ib"] cc lrb by simp
    finally show ?thesis .
  qed
  from eq rect ent show ?thesis by blast
qed


lemma stable_lse_dim1_bound:
  assumes m: "rect m r c" and c: "0 < c"
  shows "\<exists>v. stable_lse_dim1 m = Inr v \<and> length v = r \<and> (\<forall>i<r. \<forall>j<c. m ! i ! j \<le> v ! i)"
proof -
  let ?v = "map (\<lambda>row. Max (set row) + ln (\<Sum>x\<leftarrow>row. exp (x - Max (set row)))) m"
  have len: "length m = r" using m by (simp add: rect_def)
  have "m ! i ! j \<le> ?v ! i" if i: "i < r" and j: "j < c" for i j
  proof -
    have row: "length (m ! i) = c" using rect_row [OF m] i len by simp
    then have ne: "m ! i \<noteq> []" using c by auto
    have "m ! i ! j \<le> ln (\<Sum>x\<leftarrow>m ! i. exp x)"
      by (rule lse_ge_elem) (simp add: row j)
    then show ?thesis using i len by (simp add: lse_shift [OF ne])
  qed
  then show ?thesis using stable_lse_dim1_rows [OF m c] len by simp
qed

lemma forward_step_bound:
  assumes trs: "rect trs T T" and T: "2 \<le> T" and fv: "length fv = T" and feat: "length feat = T"
  shows "\<exists>fv'. forward_step trs fv feat = Inr fv' \<and> length fv' = T \<and>
           (\<forall>i<T. \<forall>j<T. fv ! j + trs ! i ! j + feat ! i \<le> fv' ! i)"
proof -
  have T1: "T \<noteq> 1" "0 < T" "(1::nat) \<noteq> T" using T by simp_all
  have b1: "broadcast_size 1 T = Inr T" by simp
  have "rect [fv] 1 T" using fv by (simp add: rect_def)
  from tensor_op2_nth [OF this trs _ T1(2) b1 broadcast_size_same, of "(+)"]
  obtain s where s: "tensor_op2 (+) [fv] trs = Inr s" "rect s T T"
    and sv: "\<And>i j. i < T \<Longrightarrow> j < T \<Longrightarrow> s ! i ! j = fv ! j + trs ! i ! j"
    using T1 by auto
  have e: "rect (map (\<lambda>x. [x]) feat) T 1" using feat by (simp add: rect_def list_all_iff)
  have b2: "broadcast_size T 1 = Inr T" by simp
  from tensor_op2_nth [OF s(2) e T1(2) T1(2) broadcast_size_same b2, of "(+)"]
  obtain tv where tv: "tensor_op2 (+) s (map (\<lambda>x. [x]) feat) = Inr tv" "rect tv T T"
    and tvv: "\<And>i j. i < T \<Longrightarrow> j < T \<Longrightarrow> tv ! i ! j = s ! i ! j + feat ! i"
    using T1 feat by auto
  from stable_lse_dim1_bound [OF tv(2) T1(2)]
  obtain v where v: "stable_lse_dim1 tv = Inr v" "length v = T"
    and vv: "\<And>i j. i < T \<Longrightarrow> j < T \<Longrightarrow> tv ! i ! j \<le> v ! i"
    by blast
  have "forward_step trs fv feat = Inr v"
    by (simp add: forward_step_def s tv v)
  moreover have "fv ! j + trs ! i ! j + feat ! i \<le> v ! i" if "i < T" "j < T" for i j
    using vv [OF that] tvv [OF that] sv [OF that] by simp
  ultimately show ?thesis using v(2) by blast
qed

text \<open>
  The invariant of the forward loop: the entry of \<^verbatim>\<open>forward_var\<close> at the last tag of a
  path dominates the score the path has collected.
\<close>

lemma forward_loop_bound:
  assumes trs: "rect trs T T" and T: "2 \<le> T"
  shows "rect feats L T \<Longrightarrow> valid_tags T L ts \<Longrightarrow> length fv = T \<Longrightarrow> p < T \<Longrightarrow> s \<le> fv ! p \<Longrightarrow>
         \<exists>fv'. forward_loop trs fv feats = Inr fv' \<and> length fv' = T \<and> last (p # ts) < T \<and>
           s + pair_scores trs (p # ts) + emission_scores feats ts \<le> fv' ! last (p # ts)"
proof (induction feats arbitrary: L ts fv p s)
  case Nil
  then have "ts = []" by (simp add: rect_def valid_tags_def)
  with Nil show ?case by simp
next
  case (Cons feat feats)
  from Cons.prems(1,2) obtain t ts' L' where ts: "ts = t # ts'" and L: "L = Suc L'"
    and t: "t < T" and ts': "valid_tags T L' ts'" and feat: "length feat = T"
    and feats: "rect feats L' T"
    by (cases ts) (auto simp: rect_def valid_tags_def)
  from forward_step_bound [OF trs T Cons.prems(3) feat]
  obtain fv1 where fv1: "forward_step trs fv feat = Inr fv1" "length fv1 = T"
    and b: "\<And>i j. i < T \<Longrightarrow> j < T \<Longrightarrow> fv ! j + trs ! i ! j + feat ! i \<le> fv1 ! i"
    by blast
  have "s + trs ! t ! p + feat ! t \<le> fv1 ! t"
    using b [OF t Cons.prems(4)] Cons.prems(5) by simp
  from Cons.IH [OF feats ts' fv1(2) t this]
  obtain fv' where "forward_loop trs fv1 feats = Inr fv'" "length fv' = T" "last (t # ts') < T"
    "s + trs ! t ! p + feat ! t + pair_scores trs (t # ts') + emission_scores feats ts'
       \<le> fv' ! last (t # ts')"
    by blast
  then show ?case by (simp add: fv1 ts)
qed

lemma pair_scores_snoc:
  "pair_scores A (p # ts @ [q]) = pair_scores A (p # ts) + A ! q ! last (p # ts)"
  by (induction ts arbitrary: p) simp_all


subsection \<open>The gold score\<close>

lemma norm_index_nat [simp]: "t < n \<Longrightarrow> norm_index n (int t) = Inr t"
  by (simp add: norm_index_def)

lemma lookup_Some [simp]: "d k = Some i \<Longrightarrow> lookup d k = Inr i"
  by (simp add: lookup_def)

lemma transition_terms:
  assumes "rect A T T" and "0 < T"
  shows "list_all (\<lambda>t. t < T) ts \<Longrightarrow> p < T \<Longrightarrow> q < T \<Longrightarrow>
     emap (\<lambda>(i, j). ebind (norm_index (length A) i) (\<lambda>i'.
              ebind (norm_index (ncols A) j) (\<lambda>j'. Inr (A ! i' ! j'))))
       (zip (map int ts @ [int q]) (int p # map int ts)) = Inr v \<Longrightarrow>
     sum_list v = pair_scores A (p # ts @ [q])"
proof (induction ts arbitrary: p v)
  case Nil
  then show ?case
    using assms by (auto simp: rect_ncols [OF assms] rect_def)
next
  case (Cons t ts)
  have l: "length A = T" "ncols A = T" using assms by (simp_all add: rect_ncols rect_def)
  from Cons.prems obtain w where
    w: "emap (\<lambda>(i, j). ebind (norm_index (length A) i) (\<lambda>i'.
              ebind (norm_index (ncols A) j) (\<lambda>j'. Inr (A ! i' ! j'))))
          (zip (map int ts @ [int q]) (int t # map int ts)) = Inr w"
    and v: "v = A ! t ! p # w"
    by (auto simp: l ebind_eq_Inr)
  have "sum_list w = pair_scores A (t # ts @ [q])"
    using Cons.prems by (intro Cons.IH [OF _ _ _ w]) simp_all
  then show ?case by (simp add: v)
qed

lemma transition_terms_defined:
  assumes "rect A T T" and "0 < T"
  shows "list_all (\<lambda>t. t < T) ts \<Longrightarrow> p < T \<Longrightarrow> q < T \<Longrightarrow>
     \<exists>v. emap (\<lambda>(i, j). ebind (norm_index (length A) i) (\<lambda>i'.
              ebind (norm_index (ncols A) j) (\<lambda>j'. Inr (A ! i' ! j'))))
       (zip (map int ts @ [int q]) (int p # map int ts)) = Inr v"
proof (induction ts arbitrary: p)
  case Nil
  then show ?case using assms by (simp add: rect_ncols [OF assms] rect_def)
next
  case (Cons t ts)
  have l: "length A = T" "ncols A = T" using assms by (simp_all add: rect_ncols rect_def)
  from Cons obtain w where
    "emap (\<lambda>(i, j). ebind (norm_index (length A) i) (\<lambda>i'.
              ebind (norm_index (ncols A) j) (\<lambda>j'. Inr (A ! i' ! j'))))
          (zip (map int ts @ [int q]) (int t # map int ts)) = Inr w"
    by fastforce
  then show ?case using Cons.prems by (simp add: l)
qed

lemma index2_transitions:
  assumes "rect A T T" and "0 < T" and "list_all (\<lambda>t. t < T) ts" and "p < T" and "q < T"
  shows "\<exists>v. index2 A (map int ts @ [int q]) (int p # map int ts) = Inr v \<and>
              sum_list v = pair_scores A (p # ts @ [q])"
proof -
  from transition_terms_defined [OF assms] obtain v where
    v: "emap (\<lambda>(i, j). ebind (norm_index (length A) i) (\<lambda>i'.
              ebind (norm_index (ncols A) j) (\<lambda>j'. Inr (A ! i' ! j'))))
       (zip (map int ts @ [int q]) (int p # map int ts)) = Inr v" by blast
  have "index2 A (map int ts @ [int q]) (int p # map int ts) = Inr v"
    by (simp add: index2_def v)
  with transition_terms [OF assms v] show ?thesis by blast
qed

lemma emission_terms:
  "length pre = k \<Longrightarrow> list_all (\<lambda>row. length row = T) E \<Longrightarrow> list_all (\<lambda>t. t < T) ts \<Longrightarrow> length ts = length E \<Longrightarrow>
   emap (\<lambda>(i, j). ebind (norm_index (k + length E) i) (\<lambda>i'.
            ebind (norm_index T j) (\<lambda>j'. Inr ((pre @ E) ! i' ! j'))))
     (zip (map int [k..<k + length E]) (map int ts)) = Inr (map2 (\<lambda>e t. e ! t) E ts) \<and>
   sum_list (map2 (\<lambda>e t. e ! t) E ts) = emission_scores E ts"
proof (induction E arbitrary: ts k pre)
  case Nil
  then show ?case by simp
next
  case (Cons e E)
  from Cons.prems obtain t ts' where ts: "ts = t # ts'" by (cases ts) auto
  have pre: "length (pre @ [e]) = Suc k" using Cons.prems by simp
  have ih: "emap (\<lambda>(i, j). ebind (norm_index (Suc k + length E) i) (\<lambda>i'.
            ebind (norm_index T j) (\<lambda>j'. Inr (((pre @ [e]) @ E) ! i' ! j'))))
     (zip (map int [Suc k..<Suc k + length E]) (map int ts')) = Inr (map2 (\<lambda>e t. e ! t) E ts') \<and>
   sum_list (map2 (\<lambda>e t. e ! t) E ts') = emission_scores E ts'"
    using Cons.prems ts by (intro Cons.IH [OF pre]) simp_all
  have upt: "[k..<k + length (e # E)] = k # [Suc k..<Suc k + length E]"
    by (simp add: upt_conv_Cons del: upt_Suc)
  have k: "norm_index (k + length (e # E)) (int k) = Inr k" by simp
  have t: "norm_index T (int t) = Inr t" using Cons.prems ts by simp
  have hd: "(pre @ e # E) ! k = e" using Cons.prems by (simp add: nth_append)
  show ?case
    unfolding upt using ih by (simp add: ts k t hd del: upt_Suc)
qed

lemma index2_emissions:
  assumes E: "rect E L T" and ts: "valid_tags T L ts"
  shows "\<exists>v. index2 E (map int [0..<length E]) (map int ts) = Inr v \<and>
              sum_list v = emission_scores E ts"
proof (cases E)
  case Nil
  then have "ts = []" using assms by (simp add: rect_def valid_tags_def)
  with Nil show ?thesis by (simp add: index2_def)
next
  case (Cons e E')
  then have nc: "ncols E = T" using E by (simp add: rect_def ncols_def)
  have len: "length ts = length E" using assms by (simp add: rect_def valid_tags_def)
  have "emap (\<lambda>(i, j). ebind (norm_index (0 + length E) i) (\<lambda>i'.
            ebind (norm_index T j) (\<lambda>j'. Inr (([] @ E) ! i' ! j'))))
     (zip (map int [0..<0 + length E]) (map int ts)) = Inr (map2 (\<lambda>e t. e ! t) E ts) \<and>
   sum_list (map2 (\<lambda>e t. e ! t) E ts) = emission_scores E ts"
    using assms len by (intro emission_terms) (simp_all add: rect_def valid_tags_def)
  then show ?thesis by (simp add: index2_def nc len)
qed

lemma score_sentences_gold:
  assumes "wf_model self T start stop" and "rect feats L T" and "valid_tags T L ts"
  shows "score_sentences self feats (map int ts) =
         Inr (gold_score (transitions self) feats start stop ts)"
proof -
  have A: "rect (transitions self) T T" and T: "0 < T" and st: "start < T" "stop < T"
    and lk: "tag2idx self (START_TAG self) = Some start" "tag2idx self (STOP_TAG self) = Some stop"
    using assms(1) by (simp_all add: wf_model_def)
  have tl: "list_all (\<lambda>t. t < T) ts" using assms(3) by (simp add: valid_tags_def)
  from index2_transitions [OF A T tl st] obtain v where
    v: "index2 (transitions self) (map int ts @ [int stop]) (int start # map int ts) = Inr v"
       "sum_list v = pair_scores (transitions self) (start # ts @ [stop])" by blast
  from index2_emissions [OF assms(2,3)] obtain w where
    w: "index2 feats (map int [0..<length feats]) (map int ts) = Inr w"
       "sum_list w = emission_scores feats ts" by blast
  show ?thesis
    by (simp add: score_sentences_def lk v w gold_score_def)
qed


text \<open>
  Claim C4, amended. Under exact arithmetic (real numbers in place of 32-bit floats):
  for a model with \<open>T\<close> tags, an emission matrix with \<open>L\<close> rows of \<open>T\<close> entries and
  a gold sequence of \<open>L\<close> tags in \<open>[0, T)\<close>, \<^verbatim>\<open>score_sentences\<close> returns exactly the
  sum of the transition scores of the \<open>L + 1\<close> consecutive pairs of the sequence with the
  start tag in front and the stop tag behind, plus the sum of the emission scores
  \<open>E[t][tags[t]]\<close>. In 32-bit floats the two sums and their sum are rounded.
\<close>

theorem score_sentences_correct:
  "wf_model self T start stop \<Longrightarrow> rect feats L T \<Longrightarrow> valid_tags T L ts \<Longrightarrow>
     score_sentences self feats (map int ts) =
       Inr (pair_scores (transitions self) (start # ts @ [stop]) + emission_scores feats ts)"
  using score_sentences_gold [of self T start stop feats L ts] by (simp add: gold_score_def)

lemma ex_model_wf: "wf_model ex_model 3 0 2"
  by (simp add: wf_model_def ex_model_def ex_transitions_def ex_tag2idx_def rect_def)

lemma ex_transitions_init:
  "ebind (init_transitions 3 0 2) (\<lambda>z. Inr (z[1 := (z ! 1)[0 := 5], 2 := (z ! 2)[1 := 5]]))
   = Inr ex_transitions"
  by (simp add: init_transitions_def setitem_def ex_transitions_def numeral_3_eq_3)

lemma ex_feats_rect: "rect ex_feats 2 3"
  by (simp add: ex_feats_def rect_def)

theorem score_sentences_correct_witness:
  "wf_model ex_model 3 0 2 \<and> rect ex_feats 2 3 \<and> valid_tags 3 2 [1, 1] \<and>
   score_sentences ex_model ex_feats (map int [1, 1]) = Inr 13"
proof -
  have v: "valid_tags 3 2 [1, 1]" by (simp add: valid_tags_def)
  have "pair_scores (transitions ex_model) (0 # [1, 1] @ [2]) + emission_scores ex_feats [1, 1]
        = 13"
    by (simp add: ex_model_def ex_transitions_def ex_feats_def)
  with score_sentences_correct [OF ex_model_wf ex_feats_rect v] ex_model_wf ex_feats_rect v
  show ?thesis by simp
qed

subsection \<open>The partition function\<close>

lemma forward_alg_bound:
  assumes wf: "wf_model self T start stop" and feats: "rect feats L T" and ts: "valid_tags T L ts"
  shows "\<exists>z. forward_alg self feats = Inr z \<and>
             gold_score (transitions self) feats start stop ts \<le> z"
proof -
  let ?A = "transitions self"
  have A: "rect ?A T T" and T: "2 \<le> T" and st: "start < T" "stop < T"
    and lk: "tag2idx self (START_TAG self) = Some start" "tag2idx self (STOP_TAG self) = Some stop"
    and sz: "size_tag self = T"
    using wf by (simp_all add: wf_model_def)
  let ?init = "(replicate T (-10000 :: real))[start := 0]"
  have init: "setitem (replicate T (-10000 :: real)) start 0 = Inr ?init"
    using st by (simp add: setitem_def)
  have "(0::real) \<le> ?init ! start" using st by simp
  from forward_loop_bound [OF A T feats ts _ st(1) this]
  obtain fv where fv: "forward_loop ?A ?init feats = Inr fv" "length fv = T"
    and q: "last (start # ts) < T"
    and b: "0 + pair_scores ?A (start # ts) + emission_scores feats ts \<le> fv ! last (start # ts)"
    by auto
  let ?q = "last (start # ts)"
  let ?row = "?A ! stop"
  have lA: "length ?A = T" using A by (simp add: rect_def)
  have row: "getitem ?A stop = Inr ?row" using st lA by (simp add: getitem_def)
  have lrow: "length ?row = T" using rect_row [OF A, of ?row] st lA by simp
  let ?t = "map2 (+) fv ?row"
  have tvar: "tensor_op2 (+) [fv] [?row] = Inr [?t]"
    by (simp add: tensor_op2_def ncols_def fv lrow)
  have ne: "?t \<noteq> []" using fv(2) lrow T by (cases fv; cases ?row) auto
  have lse: "log_sum_exp [?t] = Inr (ln (\<Sum>x\<leftarrow>?t. exp x))"
    by (simp only: log_sum_exp_row [OF ne] lse_shift [OF ne])
  have eq: "forward_alg self feats = Inr (ln (\<Sum>x\<leftarrow>?t. exp x))"
    by (simp add: forward_alg_def sz lk init fv row tvar lse)
  have "?q < length ?t" using q fv(2) lrow by simp
  then have "?t ! ?q \<le> ln (\<Sum>x\<leftarrow>?t. exp x)"
    by (rule lse_ge_elem)
  moreover have "?t ! ?q = fv ! ?q + ?row ! ?q"
    using q fv(2) lrow by simp
  ultimately have "pair_scores ?A (start # ts) + ?A ! stop ! ?q + emission_scores feats ts
      \<le> ln (\<Sum>x\<leftarrow>?t. exp x)"
    using b by simp
  then have "gold_score ?A feats start stop ts \<le> ln (\<Sum>x\<leftarrow>?t. exp x)"
    by (simp add: gold_score_def pair_scores_snoc)
  with eq show ?thesis by blast
qed

text \<open>
  Claim C2, amended. Under exact arithmetic (real numbers in place of 32-bit floats):
  for a model with \<open>T \<ge> 2\<close> tags and a \<open>T\<close> by \<open>T\<close> transition table, an emission
  matrix with \<open>L\<close> rows of \<open>T\<close> entries and every sequence of \<open>L\<close> tags in
  \<open>[0, T)\<close>, both \<^verbatim>\<open>forward_alg\<close> and \<^verbatim>\<open>score_sentences\<close> return, and the log
  partition function is at least the gold score of the sequence.
\<close>

theorem forward_alg_dominates:
  "wf_model self T start stop \<Longrightarrow> rect feats L T \<Longrightarrow> valid_tags T L ts \<Longrightarrow>
     \<exists>z s. forward_alg self feats = Inr z \<and>
           score_sentences self feats (map int ts) = Inr s \<and> s \<le> z"
  using forward_alg_bound [of self T start stop feats L ts]
    score_sentences_gold [of self T start stop feats L ts] by auto

theorem forward_alg_dominates_witness:
  "wf_model ex_model 3 0 2 \<and> rect ex_feats 2 3 \<and> valid_tags 3 2 [1, 1] \<and>
   (\<exists>z s. forward_alg ex_model ex_feats = Inr z \<and>
          score_sentences ex_model ex_feats (map int [1, 1]) = Inr s \<and> s \<le> z)"
  using forward_alg_dominates [OF ex_model_wf ex_feats_rect, of "[1, 1]"]
  by (simp add: ex_model_wf ex_feats_rect valid_tags_def)


subsection \<open>What \<^verbatim>\<open>forward_alg\<close> rejects\<close>

lemma forward_step_mismatch:
  assumes trs: "rect trs T T" and T: "2 \<le> T" and fv: "length fv = T"
    and w: "length feat \<noteq> T" "length feat \<noteq> 1"
  shows "forward_step trs fv feat = Inl RuntimeError"
proof -
  have T1: "T \<noteq> 1" "0 < T" using T by simp_all
  have b1: "broadcast_size 1 T = Inr T" by simp
  have "rect [fv] 1 T" using fv by (simp add: rect_def)
  from tensor_op2_nth [OF this trs _ T1(2) b1 broadcast_size_same, of "(+)"]
  obtain s where s: "tensor_op2 (+) [fv] trs = Inr s" "rect s T T"
    by auto
  have ls: "length s = T" using s(2) by (simp add: rect_def)
  have "broadcast_size T (length feat) = Inl RuntimeError"
    using w T1 by (simp add: broadcast_size_def)
  then have "tensor_op2 (+) s (map (\<lambda>x. [x]) feat) = Inl RuntimeError"
    by (simp add: tensor_op2_def ls)
  then show ?thesis by (simp add: forward_step_def s)
qed

lemma forward_alg_empty:
  assumes wf: "wf_model self T start stop"
  shows "forward_alg self [] =
         Inr (ln (\<Sum>x\<leftarrow>map2 (+) ((replicate T (-10000))[start := 0]) (transitions self ! stop).
                   exp x))"
proof -
  let ?A = "transitions self"
  have A: "rect ?A T T" and T: "2 \<le> T" and st: "start < T" "stop < T"
    and lk: "tag2idx self (START_TAG self) = Some start" "tag2idx self (STOP_TAG self) = Some stop"
    and sz: "size_tag self = T"
    using wf by (simp_all add: wf_model_def)
  let ?init = "(replicate T (-10000 :: real))[start := 0]"
  have init: "setitem (replicate T (-10000 :: real)) start 0 = Inr ?init"
    using st by (simp add: setitem_def)
  let ?row = "?A ! stop"
  have lA: "length ?A = T" using A by (simp add: rect_def)
  have row: "getitem ?A stop = Inr ?row" using st lA by (simp add: getitem_def)
  have lrow: "length ?row = T" using rect_row [OF A, of ?row] st lA by simp
  let ?t = "map2 (+) ?init ?row"
  have tvar: "tensor_op2 (+) [?init] [?row] = Inr [?t]"
    by (simp add: tensor_op2_def ncols_def lrow)
  have "length ?t = T" using lrow by simp
  then have ne: "?t \<noteq> []" using T by auto
  have lse: "log_sum_exp [?t] = Inr (ln (\<Sum>x\<leftarrow>?t. exp x))"
    by (simp only: log_sum_exp_row [OF ne] lse_shift [OF ne])
  show ?thesis
    by (simp add: forward_alg_def sz lk init row tvar lse)
qed

text \<open>
  Claim C5, amended. For a model with \<open>T \<ge> 2\<close> tags, \<^verbatim>\<open>forward_alg\<close> raises (the
  library's RuntimeError, from the first pass of the loop) when the emission matrix has a
  first row whose number of entries is neither \<open>T\<close> nor 1. An emission matrix without
  rows is not rejected: the loop is skipped and the log-sum-exp of the initial scores plus
  the row of the stop tag is returned.
\<close>

theorem forward_alg_rejects:
  "wf_model self T start stop \<Longrightarrow>
     (length feat \<noteq> T \<and> length feat \<noteq> 1 \<longrightarrow>
        forward_alg self (feat # feats) = Inl RuntimeError) \<and>
     forward_alg self [] =
       Inr (ln (\<Sum>x\<leftarrow>map2 (+) ((replicate T (-10000))[start := 0]) (transitions self ! stop).
                 exp x))"
proof (intro conjI impI)
  assume wf: "wf_model self T start stop"
  then show "forward_alg self [] =
       Inr (ln (\<Sum>x\<leftarrow>map2 (+) ((replicate T (-10000))[start := 0]) (transitions self ! stop).
                 exp x))"
    by (rule forward_alg_empty)
  assume w: "length feat \<noteq> T \<and> length feat \<noteq> 1"
  have A: "rect (transitions self) T T" and T: "2 \<le> T" and st: "start < T"
    and lk: "tag2idx self (START_TAG self) = Some start"
    and sz: "size_tag self = T"
    using wf by (simp_all add: wf_model_def)
  have "forward_step (transitions self) ((replicate T (-10000))[start := 0]) feat
        = Inl RuntimeError"
    using w by (intro forward_step_mismatch [OF A T]) simp_all
  then show "forward_alg self (feat # feats) = Inl RuntimeError"
    using st by (simp add: forward_alg_def sz lk setitem_def)
qed

theorem forward_alg_rejects_witness:
  "wf_model ex_model 3 0 2 \<and> length [1, 2 :: real] \<noteq> 3 \<and> length [1, 2 :: real] \<noteq> 1 \<and>
   forward_alg ex_model [[1, 2]] = Inl RuntimeError \<and>
   forward_alg ex_model [] = Inr (ln (exp 0 + (exp (-9995) + exp (-20000))))"
proof -
  have "map2 (+) ((replicate 3 (-10000))[0 := 0]) (transitions ex_model ! 2)
        = [0, -9995, -20000 :: real]"
    by (simp add: ex_model_def ex_transitions_def numeral_3_eq_3)
  with forward_alg_rejects [OF ex_model_wf, of "[1, 2]" "[]"] ex_model_wf
  show ?thesis by simp
qed

text \<open>Emission rows with a single entry are broadcast over the tags.\<close>

lemma forward_step_broadcast:
  assumes trs: "rect trs T T" and T: "2 \<le> T" and fv: "length fv = T" and feat: "length feat = 1"
  shows "\<exists>fv'. forward_step trs fv feat = Inr fv' \<and> length fv' = T"
proof -
  have T1: "T \<noteq> 1" "0 < T" using T by simp_all
  have b1: "broadcast_size 1 T = Inr T" by simp
  have "rect [fv] 1 T" using fv by (simp add: rect_def)
  from tensor_op2_nth [OF this trs _ T1(2) b1 broadcast_size_same, of "(+)"]
  obtain s where s: "tensor_op2 (+) [fv] trs = Inr s" "rect s T T"
    by auto
  have e: "rect (map (\<lambda>x. [x]) feat) 1 1" using feat by (simp add: rect_def list_all_iff)
  have b2: "broadcast_size T 1 = Inr T" by simp
  from tensor_op2_nth [OF s(2) e T1(2) _ b2 b2, of "(+)"]
  obtain tv where tv: "tensor_op2 (+) s (map (\<lambda>x. [x]) feat) = Inr tv" "rect tv T T"
    by auto
  from stable_lse_dim1_bound [OF tv(2) T1(2)]
  obtain v where v: "stable_lse_dim1 tv = Inr v" "length v = T"
    by blast
  have "forward_step trs fv feat = Inr v"
    by (simp add: forward_step_def s tv v)
  then show ?thesis using v(2) by blast
qed

lemma forward_alg_single_broadcast:
  assumes wf: "wf_model self T start stop" and feat: "length feat = 1"
  shows "\<not> raises (forward_alg self [feat])"
proof -
  let ?A = "transitions self"
  have A: "rect ?A T T" and T: "2 \<le> T" and st: "start < T" "stop < T"
    and lk: "tag2idx self (START_TAG self) = Some start" "tag2idx self (STOP_TAG self) = Some stop"
    and sz: "size_tag self = T"
    using wf by (simp_all add: wf_model_def)
  let ?init = "(replicate T (-10000 :: real))[start := 0]"
  have init: "setitem (replicate T (-10000 :: real)) start 0 = Inr ?init"
    using st by (simp add: setitem_def)
  from forward_step_broadcast [OF A T _ feat, of ?init]
  obtain fv where fv: "forward_step ?A ?init feat = Inr fv" "length fv = T"
    by auto
  let ?row = "?A ! stop"
  have lA: "length ?A = T" using A by (simp add: rect_def)
  have row: "getitem ?A stop = Inr ?row" using st lA by (simp add: getitem_def)
  have lrow: "length ?row = T" using rect_row [OF A, of ?row] st lA by simp
  let ?t = "map2 (+) fv ?row"
  have tvar: "tensor_op2 (+) [fv] [?row] = Inr [?t]"
    by (simp add: tensor_op2_def ncols_def fv lrow)
  have "length ?t = T" using fv(2) lrow by simp
  then have ne: "?t \<noteq> []" using T by auto
  have lse: "log_sum_exp [?t] = Inr (ln (\<Sum>x\<leftarrow>?t. exp x))"
    by (simp only: log_sum_exp_row [OF ne] lse_shift [OF ne])
  show ?thesis
    by (simp add: forward_alg_def sz lk init fv row tvar lse raises_def)
qed

theorem forward_alg_empty_counterexample:
  "\<not> raises (forward_alg ex_model []) \<and> \<not> raises (forward_alg ex_model [[7]])"
  using forward_alg_empty [OF ex_model_wf] forward_alg_single_broadcast [OF ex_model_wf, of "[7]"]
  by (simp add: raises_def)

subsection \<open>What \<^verbatim>\<open>score_sentences\<close> rejects\<close>

lemma emap_IndexError:
  assumes "\<And>x e. x \<in> set xs \<Longrightarrow> f x = Inl e \<Longrightarrow> e = IndexError"
    and "x \<in> set xs" and "f x = Inl IndexError"
  shows "emap f xs = Inl IndexError"
  using assms
proof (induction xs)
  case Nil
  then show ?case by simp
next
  case (Cons a xs)
  show ?case
  proof (cases "f a")
    case (Inl e)
    then have "e = IndexError" using Cons.prems(1) [of a e] by simp
    with Inl show ?thesis by simp
  next
    case (Inr y)
    then have "x \<in> set xs" using Cons.prems(2,3) by auto
    then have "emap f xs = Inl IndexError"
      using Cons.prems by (intro Cons.IH) auto
    with Inr show ?thesis by simp
  qed
qed

lemma norm_index_error: "norm_index n i = Inl e \<Longrightarrow> e = IndexError"
  by (auto simp: norm_index_def split: if_splits)

lemma norm_index_out: "int n \<le> i \<or> i < - int n \<Longrightarrow> norm_index n i = Inl IndexError"
  by (auto simp: norm_index_def)

lemma index2_out_of_range:
  assumes "length rows = length cols" and "t \<in> set rows"
    and "int (length m) \<le> t \<or> t < - int (length m)"
  shows "index2 m rows cols = Inl IndexError"
proof -
  let ?f = "\<lambda>(i, j). ebind (norm_index (length m) i) (\<lambda>i'.
              ebind (norm_index (ncols m) j) (\<lambda>j'. Inr (m ! i' ! j')))"
  from assms(2) obtain k where k: "k < length rows" "rows ! k = t"
    by (auto simp: in_set_conv_nth)
  have mem: "(t, cols ! k) \<in> set (zip rows cols)"
    using k assms(1) by (auto simp: in_set_zip)
  have bad: "?f (t, cols ! k) = Inl IndexError"
    using norm_index_out [OF assms(3)] by simp
  have only: "e = IndexError" if "?f x = Inl e" for x e
    using that
    by (cases x) (auto simp: ebind_def split: sum.splits dest: norm_index_error)
  have "emap ?f (zip rows cols) = Inl IndexError"
  proof (rule emap_IndexError [where f = ?f and x = "(t, cols ! k)"])
    show "(t, cols ! k) \<in> set (zip rows cols)" by (rule mem)
    show "?f (t, cols ! k) = Inl IndexError" by (rule bad)
    show "e = IndexError" if "?f x = Inl e" for x e by (rule only [OF that])
  qed
  then show ?thesis by (simp add: index2_def assms(1))
qed

lemma norm_index_shift:
  "- int n \<le> i \<Longrightarrow> i < int n \<Longrightarrow>
   norm_index n (if i < 0 then i + int n else i) = norm_index n i"
  by (simp add: norm_index_def)

lemma index2_shift:
  assumes len: "length rows = length cols"
    and rows: "\<And>i. i \<in> set rows \<Longrightarrow> - int (length m) \<le> i \<and> i < int (length m)"
    and cols: "\<And>j. j \<in> set cols \<Longrightarrow> - int (ncols m) \<le> j \<and> j < int (ncols m)"
  shows "index2 m (map (\<lambda>i. if i < 0 then i + int (length m) else i) rows)
                  (map (\<lambda>j. if j < 0 then j + int (ncols m) else j) cols)
         = index2 m rows cols"
proof -
  let ?g = "\<lambda>i. if i < 0 then i + int (length m) else i"
  let ?h = "\<lambda>j. if j < 0 then j + int (ncols m) else j"
  let ?f = "\<lambda>(i, j). ebind (norm_index (length m) i) (\<lambda>i'.
              ebind (norm_index (ncols m) j) (\<lambda>j'. Inr (m ! i' ! j')))"
  have z: "zip (map ?g rows) (map ?h cols) = map (\<lambda>(i, j). (?g i, ?h j)) (zip rows cols)"
    by (simp add: zip_map_map)
  have em: "emap f (map k xs) = emap (\<lambda>x. f (k x)) xs" for f :: "int \<times> int \<Rightarrow> error + real"
    and k xs
    by (induction xs) simp_all
  have "emap ?f (zip (map ?g rows) (map ?h cols)) = emap ?f (zip rows cols)"
    unfolding z em
  proof (rule emap_cong)
    fix x assume x: "x \<in> set (zip rows cols)"
    obtain i j where ij: "x = (i, j)" by (cases x)
    have "i \<in> set rows" "j \<in> set cols" using x ij by (auto dest: set_zip_leftD set_zip_rightD)
    then show "?f (case x of (i, j) \<Rightarrow> (?g i, ?h j)) = ?f x"
      using norm_index_shift [of "length m" i] norm_index_shift [of "ncols m" j]
        rows [of i] cols [of j]
      by (simp add: ij)
  qed
  then show ?thesis by (simp add: index2_def len)
qed

lemma score_sentences_shift:
  assumes wf: "wf_model self T start stop" and feats: "rect feats L T" and len: "length tags = L"
    and rng: "\<And>t. t \<in> set tags \<Longrightarrow> - int T \<le> t \<and> t < int T"
  shows "score_sentences self feats (map (\<lambda>t. if t < 0 then t + int T else t) tags)
         = score_sentences self feats tags"
proof -
  let ?w = "\<lambda>t. if t < 0 then t + int T else t"
  let ?A = "transitions self"
  have A: "rect ?A T T" and T: "0 < T" and st: "start < T" "stop < T"
    and lk: "tag2idx self (START_TAG self) = Some start" "tag2idx self (STOP_TAG self) = Some stop"
    using wf by (simp_all add: wf_model_def)
  have lA: "length ?A = T" "ncols ?A = T" using A T by (simp_all add: rect_ncols rect_def)
  have "index2 ?A (map (\<lambda>i. if i < 0 then i + int (length ?A) else i) (tags @ [int stop]))
                  (map (\<lambda>j. if j < 0 then j + int (ncols ?A) else j) (int start # tags))
        = index2 ?A (tags @ [int stop]) (int start # tags)"
    using rng st by (intro index2_shift) (auto simp: lA)
  then have "index2 ?A (map ?w (tags @ [int stop])) (map ?w (int start # tags))
        = index2 ?A (tags @ [int stop]) (int start # tags)"
    unfolding lA .
  moreover have "map ?w (tags @ [int stop]) = map ?w tags @ [int stop]"
    "map ?w (int start # tags) = int start # map ?w tags"
    by simp_all
  ultimately have tr: "index2 ?A (map ?w tags @ [int stop]) (int start # map ?w tags)
        = index2 ?A (tags @ [int stop]) (int start # tags)"
    by (simp only:)
  have em: "index2 feats (map int [0..<length feats]) (map ?w tags)
        = index2 feats (map int [0..<length feats]) tags"
  proof (cases feats)
    case Nil
    then have "tags = []" using feats len by (simp add: rect_def)
    then show ?thesis by simp
  next
    case (Cons e E)
    then have nc: "ncols feats = T" using feats by (simp add: rect_def ncols_def)
    have lf: "length feats = L" using feats by (simp add: rect_def)
    have "index2 feats (map (\<lambda>i. if i < 0 then i + int (length feats) else i)
                          (map int [0..<length feats]))
                       (map (\<lambda>j. if j < 0 then j + int (ncols feats) else j) tags)
          = index2 feats (map int [0..<length feats]) tags"
      using rng by (intro index2_shift) (auto simp: nc lf len)
    moreover have "map (\<lambda>i. if i < 0 then i + int (length feats) else i)
                     (map int [0..<length feats]) = map int [0..<length feats]"
      by simp
    ultimately show ?thesis by (simp only: nc)
  qed
  show ?thesis
    by (simp add: score_sentences_def lk tr em)
qed

lemma score_sentences_in_range:
  assumes wf: "wf_model self T start stop" and feats: "rect feats L T" and len: "length tags = L"
    and rng: "\<And>t. t \<in> set tags \<Longrightarrow> - int T \<le> t \<and> t < int T"
  shows "\<not> raises (score_sentences self feats tags)"
proof -
  let ?w = "\<lambda>t. if t < 0 then t + int T else t"
  let ?ts = "map (\<lambda>t. nat (?w t)) tags"
  have "nat (?w t) < T" if "t \<in> set tags" for t
    using rng [OF that] by (cases "t < 0") simp_all
  then have "valid_tags T L ?ts"
    using len by (simp add: valid_tags_def list_all_iff)
  from score_sentences_gold [OF wf feats this]
  have ok: "\<not> raises (score_sentences self feats (map int ?ts))" by (simp add: raises_def)
  have "int (nat (?w t)) = ?w t" if "t \<in> set tags" for t
    using rng [OF that] by (cases "t < 0") simp_all
  then have eq: "map int ?ts = map ?w tags"
    unfolding map_map by (intro map_cong [OF refl]) simp
  have "\<not> raises (score_sentences self feats (map ?w tags))"
    using ok by (metis eq)
  then show ?thesis
    by (metis score_sentences_shift [OF wf feats len rng])
qed

text \<open>
  Claim C6, amended. For every gold tag sequence that contains a tag id \<open>\<ge> T\<close> or
  \<open>< -T\<close>, \<^verbatim>\<open>score_sentences\<close> fails with an index-out-of-range error and returns no
  score (the error comes from the first indexing operation, on the transition table).
  Ids in \<open>[-T, -1]\<close> are not rejected: for an emission matrix with \<open>L\<close> rows of \<open>T\<close>
  entries and \<open>L\<close> ids that all lie in \<open>[-T, T)\<close> the call returns a score, the one
  it returns with every negative id \<open>t\<close> replaced by \<open>t + T\<close>.
\<close>

theorem score_sentences_rejects:
  "wf_model self T start stop \<Longrightarrow>
     (t \<in> set tags \<and> (int T \<le> t \<or> t < - int T) \<longrightarrow>
        score_sentences self feats tags = Inl IndexError) \<and>
     (rect feats L T \<and> length tags = L \<and> (\<forall>t\<in>set tags. - int T \<le> t \<and> t < int T) \<longrightarrow>
        \<not> raises (score_sentences self feats tags) \<and>
        score_sentences self feats tags =
          score_sentences self feats (map (\<lambda>t. if t < 0 then t + int T else t) tags))"
proof (intro conjI impI)
  assume wf: "wf_model self T start stop"
  {
    assume a: "t \<in> set tags \<and> (int T \<le> t \<or> t < - int T)"
    have lA: "length (transitions self) = T"
      and lk: "tag2idx self (START_TAG self) = Some start"
        "tag2idx self (STOP_TAG self) = Some stop"
      using wf by (simp_all add: wf_model_def rect_def)
    have "index2 (transitions self) (tags @ [int stop]) (int start # tags) = Inl IndexError"
      using a by (intro index2_out_of_range [where t = t]) (simp_all add: lA)
    then show "score_sentences self feats tags = Inl IndexError"
      by (simp add: score_sentences_def lk)
  }
  {
    assume b: "rect feats L T \<and> length tags = L \<and>
               (\<forall>t\<in>set tags. - int T \<le> t \<and> t < int T)"
    then show "\<not> raises (score_sentences self feats tags)"
      using score_sentences_in_range [OF wf, of feats L tags] by blast
    from b show "score_sentences self feats tags =
          score_sentences self feats (map (\<lambda>t. if t < 0 then t + int T else t) tags)"
      using score_sentences_shift [OF wf, of feats L tags] by simp
  }
qed

theorem score_sentences_rejects_witness:
  "wf_model ex_model 3 0 2 \<and>
   ((3::int) \<in> set [1, 3] \<and> (int 3 \<le> 3 \<or> (3::int) < - int 3)) \<and>
   score_sentences ex_model ex_feats [1, 3] = Inl IndexError \<and>
   (rect ex_feats 2 3 \<and> length [-2, -1 :: int] = 2 \<and>
      (- int 3 \<le> (-2 :: int) \<and> (-2 :: int) < int 3) \<and>
      (- int 3 \<le> (-1 :: int) \<and> (-1 :: int) < int 3)) \<and>
   \<not> raises (score_sentences ex_model ex_feats [-2, -1]) \<and>
   score_sentences ex_model ex_feats [-2, -1] = score_sentences ex_model ex_feats [1, 2]"
proof -
  have a: "(3::int) \<in> set [1, 3] \<and> (int 3 \<le> 3 \<or> (3::int) < - int 3)" by simp
  have b: "rect ex_feats 2 3 \<and> length [-2, -1 :: int] = 2 \<and>
      (\<forall>t\<in>set [-2, -1 :: int]. - int 3 \<le> t \<and> t < int 3)"
    using ex_feats_rect by simp
  have m: "map (\<lambda>t. if t < 0 then t + int 3 else t) [-2, -1 :: int] = [1, 2]" by simp
  from score_sentences_rejects [OF ex_model_wf, of 3 "[1, 3]" ex_feats 2] a
  have 1: "score_sentences ex_model ex_feats [1, 3] = Inl IndexError" by blast
  from score_sentences_rejects [OF ex_model_wf, of 0 "[-2, -1]" ex_feats 2] b
  have 2: "\<not> raises (score_sentences ex_model ex_feats [-2, -1])"
    and 3: "score_sentences ex_model ex_feats [-2, -1] =
            score_sentences ex_model ex_feats
              (map (\<lambda>t. if t < 0 then t + int 3 else t) [-2, -1 :: int])"
    by blast+
  from 3 have 4: "score_sentences ex_model ex_feats [-2, -1] =
                  score_sentences ex_model ex_feats [1, 2]"
    unfolding m .
  have c: "(- int 3 \<le> (-2 :: int) \<and> (-2 :: int) < int 3) \<and>
           (- int 3 \<le> (-1 :: int) \<and> (-1 :: int) < int 3)"
    by simp
  from ex_model_wf a 1 b c 2 4 show ?thesis by blast
qed

theorem score_sentences_negative_counterexample:
  "score_sentences ex_model ex_feats [-2, -2] = Inr 13"
  by (simp add: score_sentences_def ex_model_def ex_tag2idx_def ex_transitions_def ex_feats_def
      lookup_def index2_def norm_index_def ncols_def)


subsection \<open>The decoder\<close>

text \<open>
  With the two ill-formed expressions read as the identity (the attribute of line 300 as
  the tensor itself, the constructor of line 309 as the conversion of the array to a
  tensor), the method decodes the scenario with the tags START, O and STOP to the path
  O, O with the score 13.
\<close>

lemma viterbi_decode_with_identity_example:
  "viterbi_decode_with Inr Inr ex_model ex_feats = Inr (Scalar 13, [1, 1])"
  by (simp add: viterbi_decode_with_def ex_model_def ex_tag2idx_def ex_transitions_def
      ex_feats_def lookup_def setitem_def getitem_def viterbi_step_def expand2_def
      tensor_op2_def tensor_op1_def ncols_def max_dim1_def max_row_def squeeze_len_def
      item2_def argmax_def pop_start_def expand_def broadcast_size_def numeral_3_eq_3)

text \<open>
  Claim C9. In the scenario with the tags START = 0, O = 1 and STOP = 2, two positions,
  the transition scores 5 from START to O and from O to STOP, and the emission scores 1
  and 2 for O, \<^verbatim>\<open>viterbi_decode\<close> as written does not return the path O, O with the
  score 13: reading the attribute \<^verbatim>\<open>re\<close> of the tensor \<^verbatim>\<open>init_vvars\<close> raises an
  AttributeError.
\<close>

theorem viterbi_decode_scenario:
  "viterbi_decode ex_model ex_feats = Inl AttributeError"
  by (simp add: viterbi_decode_def viterbi_decode_with_def tensor_re_def ex_model_def
      ex_tag2idx_def lookup_def setitem_def)

text \<open>
  Claim C1. \<^verbatim>\<open>viterbi_decode\<close> as written returns no score at all, whatever the model
  and the emission matrix are: every call raises, at the latest at line 300.
\<close>

theorem viterbi_decode_raises:
  "raises (viterbi_decode self feats)"
  by (simp add: viterbi_decode_def viterbi_decode_with_def tensor_re_def raises_def ebind_def
      split: sum.splits)

text \<open>
  Claim C7. On an emission matrix with one row \<^verbatim>\<open>viterbi_decode\<close> as written returns
  no tag sequence (of length 1 or any other): the call raises an AttributeError before
  the loop and the traceback are reached.
\<close>

theorem viterbi_decode_one_row:
  "viterbi_decode ex_model [[0, 1, 0]] = Inl AttributeError"
  by (simp add: viterbi_decode_def viterbi_decode_with_def tensor_re_def ex_model_def
      ex_tag2idx_def lookup_def setitem_def)


subsection \<open>The store\<close>

lemma preserves_lift: "preserves n (lift r)"
  by (simp add: preserves_def lift_def)

lemma preserves_load: "preserves n (load a)"
  by (simp add: preserves_def load_def)

lemma preserves_sbind:
  assumes "preserves n p" and "\<And>v. preserves n (f v)"
  shows "preserves n (sbind p f)"
  unfolding preserves_def
proof (intro allI impI)
  fix h :: heap assume h: "n \<le> fresh h"
  obtain r h1 where p: "p h = (r, h1)" by (cases "p h")
  have h1: "n \<le> fresh h1" "\<forall>a<n. cells h1 a = cells h a"
    using assms(1) h p by (auto simp: preserves_def)
  show "n \<le> fresh (snd (sbind p f h)) \<and> (\<forall>a<n. cells (snd (sbind p f h)) a = cells h a)"
  proof (cases r)
    case (Inl e)
    then show ?thesis using h1 by (simp add: sbind_def p)
  next
    case (Inr v)
    have "n \<le> fresh (snd (f v h1)) \<and> (\<forall>a<n. cells (snd (f v h1)) a = cells h1 a)"
      using assms(2) [of v] h1(1) by (simp add: preserves_def)
    then show ?thesis using h1 Inr by (simp add: sbind_def p)
  qed
qed

text \<open>A new tensor gets an address that is not one of the preserved ones.\<close>

lemma preserves_alloc:
  assumes "\<And>a. n \<le> a \<Longrightarrow> preserves n (f a)"
  shows "preserves n (sbind (alloc m) f)"
  unfolding preserves_def
proof (intro allI impI)
  fix h :: heap assume h: "n \<le> fresh h"
  let ?h1 = "h\<lparr>cells := (cells h)(fresh h := m), fresh := Suc (fresh h)\<rparr>"
  have "n \<le> fresh ?h1" using h by simp
  then have "n \<le> fresh (snd (f (fresh h) ?h1)) \<and>
             (\<forall>a<n. cells (snd (f (fresh h) ?h1)) a = cells ?h1 a)"
    using assms [OF h] by (simp add: preserves_def)
  then show "n \<le> fresh (snd (sbind (alloc m) f h)) \<and>
             (\<forall>a<n. cells (snd (sbind (alloc m) f h)) a = cells h a)"
    using h by (simp add: sbind_def alloc_def)
qed

lemma preserves_store_elem: "n \<le> a \<Longrightarrow> preserves n (store_elem a i j x)"
  by (simp add: preserves_def store_elem_def Let_def)

lemma preserves_store_row: "n \<le> a \<Longrightarrow> preserves n (store_row a i x)"
  by (simp add: preserves_def store_row_def Let_def)

lemma preserves_forward_alg_h: "preserves n (forward_alg_h self aT aF)"
  unfolding forward_alg_h_def
  by (intro preserves_alloc preserves_sbind preserves_lift preserves_load preserves_store_elem)

lemma preserves_score_sentences_h: "preserves n (score_sentences_h self aT aF tags)"
  unfolding score_sentences_h_def
  by (intro preserves_sbind preserves_lift preserves_load)

lemma preserves_prod: "(\<And>a b. preserves n (f a b)) \<Longrightarrow> preserves n (case x of (a, b) \<Rightarrow> f a b)"
  by (cases x) simp

lemma preserves_if: "preserves n p \<Longrightarrow> preserves n q \<Longrightarrow> preserves n (if c then p else q)"
  by simp

lemma preserves_viterbi_decode_with_h: "preserves n (viterbi_decode_with_h re ft self aT aF)"
  unfolding viterbi_decode_with_h_def
  by (intro preserves_alloc preserves_sbind preserves_lift preserves_load preserves_store_elem
      preserves_store_row preserves_prod preserves_if)

text \<open>The computations on the store return what the methods of the sections above return
  on the contents of the two cells.\<close>

lemma forward_alg_h_result:
  "aT < fresh h \<Longrightarrow> aF < fresh h \<Longrightarrow>
   fst (forward_alg_h self aT aF h) = forward_alg (self\<lparr>transitions := cells h aT\<rparr>) (cells h aF)"
  by (cases "tag2idx self (START_TAG self)")
     (simp_all add: forward_alg_h_def forward_alg_def sbind_def alloc_def lift_def load_def
       store_elem_def setitem_def lookup_def Let_def)

lemma score_sentences_h_result:
  "fst (score_sentences_h self aT aF tags h) =
   score_sentences (self\<lparr>transitions := cells h aT\<rparr>) (cells h aF) tags"
  by (simp add: score_sentences_h_def sbind_def load_def lift_def)


lemma viterbi_decode_h_result:
  "fst (viterbi_decode_h self aT aF h) = viterbi_decode (self\<lparr>transitions := cells h aT\<rparr>) (cells h aF)"
  by (cases "tag_to_ix self (START_TAG self)")
     (simp_all add: viterbi_decode_h_def viterbi_decode_with_h_def viterbi_decode_def
       viterbi_decode_with_def tensor_re_def sbind_def alloc_def lift_def load_def
       store_elem_def setitem_def lookup_def Let_def)

lemma viterbi_decode_with_h_result:
  assumes "aT < fresh h" and "aF < fresh h"
  shows "fst (viterbi_decode_with_h re ft self aT aF h) =
         viterbi_decode_with re ft (self\<lparr>transitions := cells h aT\<rparr>) (cells h aF)"
  using assms
  by (auto simp: viterbi_decode_with_h_def viterbi_decode_with_def sbind_def alloc_def
        lift_def load_def store_elem_def store_row_def setitem_def lookup_def Let_def ebind_def
        getitem_def
        split: sum.splits option.splits prod.splits)

text \<open>
  Claim C8. When the transition table and the emission matrix are cells of the store
  (at addresses \<open>aT\<close> and \<open>aF\<close> in use), then after a call of \<^verbatim>\<open>forward_alg\<close>, of
  \<^verbatim>\<open>score_sentences\<close> or of \<^verbatim>\<open>viterbi_decode\<close>, whether it returns or raises, both
  cells hold what they held before. This also holds for \<^verbatim>\<open>viterbi_decode\<close> with any
  reading \<open>re\<close>, \<open>ft\<close> of its two ill-formed expressions, where the writes of lines 318
  and 319 are reached: they go to the tensor the addition of line 317 created.
\<close>

theorem inputs_unchanged:
  "aT < fresh h \<Longrightarrow> aF < fresh h \<Longrightarrow>
     cells (snd (forward_alg_h self aT aF h)) aT = cells h aT \<and>
     cells (snd (forward_alg_h self aT aF h)) aF = cells h aF \<and>
     cells (snd (score_sentences_h self aT aF tags h)) aT = cells h aT \<and>
     cells (snd (score_sentences_h self aT aF tags h)) aF = cells h aF \<and>
     cells (snd (viterbi_decode_h self aT aF h)) aT = cells h aT \<and>
     cells (snd (viterbi_decode_h self aT aF h)) aF = cells h aF \<and>
     cells (snd (viterbi_decode_with_h re ft self aT aF h)) aT = cells h aT \<and>
     cells (snd (viterbi_decode_with_h re ft self aT aF h)) aF = cells h aF"
  using preserves_forward_alg_h [of "fresh h" self aT aF]
    preserves_score_sentences_h [of "fresh h" self aT aF tags]
    preserves_viterbi_decode_with_h [of "fresh h" tensor_re FloatTensor_kw self aT aF]
    preserves_viterbi_decode_with_h [of "fresh h" re ft self aT aF]
  by (simp add: preserves_def viterbi_decode_h_def)

theorem inputs_unchanged_witness:
  "(0::nat) < fresh ex_heap \<and> (1::nat) < fresh ex_heap \<and>
     cells (snd (forward_alg_h ex_model 0 1 ex_heap)) 0 = ex_transitions \<and>
     cells (snd (forward_alg_h ex_model 0 1 ex_heap)) 1 = ex_feats \<and>
     cells (snd (score_sentences_h ex_model 0 1 [1, 1] ex_heap)) 0 = ex_transitions \<and>
     cells (snd (score_sentences_h ex_model 0 1 [1, 1] ex_heap)) 1 = ex_feats \<and>
     cells (snd (viterbi_decode_h ex_model 0 1 ex_heap)) 0 = ex_transitions \<and>
     cells (snd (viterbi_decode_h ex_model 0 1 ex_heap)) 1 = ex_feats \<and>
     cells (snd (viterbi_decode_with_h Inr Inr ex_model 0 1 ex_heap)) 0 = ex_transitions \<and>
     cells (snd (viterbi_decode_with_h Inr Inr ex_model 0 1 ex_heap)) 1 = ex_feats"
proof -
  have a: "(0::nat) < fresh ex_heap" "(1::nat) < fresh ex_heap"
    and c: "cells ex_heap 0 = ex_transitions" "cells ex_heap 1 = ex_feats"
    by (simp_all add: ex_heap_def)
  from inputs_unchanged [OF a, of ex_model "[1, 1]" Inr Inr] a c show ?thesis
    by simp
qed


subsection \<open>Rounding to 32-bit floats\<close>

lemma rhe_of_int [simp]: "rhe (of_int m) = m"
  by (simp add: rhe_def)

lemma rhe_tiny: "0 \<le> x \<Longrightarrow> x < 1 / 2 \<Longrightarrow> rhe x = 0"
proof -
  assume a: "0 \<le> x" "x < 1 / 2"
  then have "\<lfloor>x\<rfloor> = 0" by (simp add: floor_eq_iff)
  then show ?thesis using a by (simp add: rhe_def)
qed

lemma ulp_exp_eq:
  assumes "2 powr of_int e \<le> \<bar>x\<bar>" and "\<bar>x\<bar> < 2 powr (of_int e + 1)"
  shows "ulp_exp x = max (e - 23) (- 149)"
proof -
  have pos: "0 < \<bar>x\<bar>" using assms(1) by (smt (verit) powr_gt_zero)
  have "\<lfloor>log 2 \<bar>x\<bar>\<rfloor> = e"
    using assms by (subst floor_log_eq_powr_iff [OF pos]) simp_all
  then show ?thesis by (simp add: ulp_exp_def)
qed

text \<open>A positive number below half the smallest float is rounded to 0.\<close>

lemma fl32_tiny:
  assumes "0 < x" and "x < 2 powr (- 150)"
  shows "fl32 x = 0"
proof -
  have "log 2 x < - 150"
    using assms by (simp add: log_less_iff)
  then have "\<lfloor>log 2 \<bar>x\<bar>\<rfloor> < - 150" using assms(1) by (simp add: floor_less_iff)
  then have u: "ulp_exp x = - 149" unfolding ulp_exp_def by linarith
  have "x / 2 powr (- 149) < 2 powr (- 150) / 2 powr (- 149)"
    using assms(2) by (simp add: divide_strict_right_mono)
  also have "2 powr (- 150) / 2 powr (- 149) = (1 / 2 :: real)"
    by (simp add: powr_diff [symmetric])
  finally have "x / 2 powr (- 149) < 1 / 2" .
  moreover have "0 \<le> x / 2 powr (- 149)" using assms(1) by simp
  ultimately have "rhe (x / 2 powr (- 149)) = 0" by (rule rhe_tiny [rotated])
  then show ?thesis using assms(1) by (simp add: fl32_def u)
qed

text \<open>Between \<open>2\<^sup>2\<^sup>4\<close> and \<open>2\<^sup>2\<^sup>5\<close> the floats are the even integers.\<close>

lemma fl32_mid:
  assumes "16777216 \<le> \<bar>x\<bar>" and "\<bar>x\<bar> < 33554432"
  shows "fl32 x = of_int (rhe (x / 2)) * 2"
proof -
  have "ulp_exp x = max (24 - 23) (- 149)"
    using assms by (intro ulp_exp_eq) simp_all
  then have u: "ulp_exp x = 1" by simp
  have "x \<noteq> 0" using assms(1) by auto
  then show ?thesis by (simp add: fl32_def u)
qed

text \<open>Every integer up to \<open>2\<^sup>2\<^sup>4\<close> in absolute value is a float.\<close>

lemma fl32_int_small:
  assumes "x \<in> \<int>" and "\<bar>x\<bar> \<le> 16777216"
  shows "fl32 x = x"
proof (cases "x = 0")
  case True
  then show ?thesis by (simp add: fl32_def)
next
  case False
  from assms(1) obtain n :: int where x: "x = of_int n" by (auto elim: Ints_cases)
  have n: "n \<noteq> 0" using False x by simp
  then have one: "1 \<le> \<bar>x\<bar>" using x by (simp flip: of_int_abs)
  define e where "e = \<lfloor>log 2 \<bar>x\<bar>\<rfloor>"
  have e0: "0 \<le> e" using one by (simp add: e_def)
  have "log 2 \<bar>x\<bar> \<le> log 2 16777216" using assms(2) one by simp
  also have "log 2 16777216 = (24::real)"
    using log_pow_cancel [of "2::real" 24] by simp
  finally have e24: "e \<le> 24" by (simp add: e_def floor_le_iff)
  have u: "ulp_exp x = e - 23" using e0 by (simp add: ulp_exp_def e_def)
  have lo: "2 powr of_int e \<le> \<bar>x\<bar>"
    using one floor_log_eq_powr_iff [of "\<bar>x\<bar>" 2 e] by (simp add: e_def)
  have "\<exists>m::int. x / 2 powr of_int (e - 23) = of_int m"
  proof (cases "e \<le> 23")
    case True
    have "(2::real) powr of_int (e - 23) = 1 / 2 ^ nat (23 - e)"
      using True powr_int [of "2::real" "e - 23"] by (cases "e = 23") simp_all
    then have "x / 2 powr of_int (e - 23) = of_int (n * 2 ^ nat (23 - e))"
      by (simp add: x)
    then show ?thesis by blast
  next
    case False
    then have e: "e = 24" using e24 by simp
    have "(2::real) powr of_int e = 16777216" by (simp add: e)
    then have "\<bar>x\<bar> = 16777216" using lo assms(2) by simp
    then have "\<bar>n\<bar> = 16777216" using x by (simp flip: of_int_abs)
    then have "n = 2 * (n div 2)" by presburger
    then have "x / 2 powr of_int (e - 23) = of_int (n div 2)"
      by (simp add: e x)
    then show ?thesis by blast
  qed
  then obtain m :: int where m: "x / 2 powr of_int (e - 23) = of_int m" by blast
  then have mx: "of_int m * 2 powr of_int (e - 23) = x" by (simp add: field_simps)
  have "fl32 x = of_int (rhe (x / 2 powr of_int (e - 23))) * 2 powr of_int (e - 23)"
    using False by (simp add: fl32_def u)
  also have "\<dots> = of_int m * 2 powr of_int (e - 23)"
    by (simp only: m rhe_of_int)
  finally show ?thesis by (simp only: mx)
qed

lemma exp_very_negative:
  assumes "(x::real) \<le> - 150"
  shows "0 < exp x" and "exp x < 2 powr (- 150)"
proof -
  show "0 < exp x" by simp
  have "exp x \<le> exp (- 150)" using assms by simp
  also have "exp (- 150 :: real) < exp (- 150 * ln 2)"
    using ln_2_less_1 by simp
  also have "exp (- 150 * ln 2) = (2::real) powr (- 150)"
    by (simp add: powr_def mult.commute)
  finally show "exp x < 2 powr (- 150)" .
qed

lemma fexp_underflow: "x \<le> - 150 \<Longrightarrow> fexp x = 0"
  unfolding fexp_def by (rule fl32_tiny) (simp_all add: exp_very_negative)

lemma fexp_0 [simp]: "fexp 0 = 1"
  by (simp add: fexp_def fl32_int_small)

lemma fln_1 [simp]: "fln 1 = 0"
  by (simp add: fln_def fl32_def)

lemma score_sentences32_big: "score_sentences32 ex_model big_feats [1, 1] = Inr 16777226"
  by (simp add: score_sentences32_def ex_model_def ex_tag2idx_def ex_transitions_def
      big_feats_def lookup_def index2_def norm_index_def ncols_def fsum_def fadd_def
      fl32_int_small fl32_mid rhe_def)

lemmas f32_eval = tensor_op2_def ncols_def max_dim1_def max_row_def getitem_def
  fsum_def fadd_def fsub_def fl32_int_small fl32_mid rhe_def fexp_underflow

lemma step1:
  "forward_step32 ex_transitions [0, -10000, -10000] [0, 16777216, 0]
   = Inr [-10000, 16777220, 0]"
  by (simp add: forward_step32_def stable_lse_dim1_32_def ex_transitions_def f32_eval)

lemma step2:
  "forward_step32 ex_transitions [-10000, 16777220, 0] [0, 1, 0]
   = Inr [16767220, 16777220, 16777224]"
  by (simp add: forward_step32_def stable_lse_dim1_32_def ex_transitions_def f32_eval)

lemma forward_alg32_big: "forward_alg32 ex_model big_feats = Inr 16777224"
proof -
  have lk: "lookup (tag2idx ex_model) (START_TAG ex_model) = Inr 0"
    "lookup (tag2idx ex_model) (STOP_TAG ex_model) = Inr 2"
    by (simp_all add: ex_model_def ex_tag2idx_def lookup_def)
  have init: "setitem (replicate (size_tag ex_model) (-10000)) 0 (0::real)
              = Inr [0, -10000, -10000]"
    by (simp add: ex_model_def setitem_def numeral_3_eq_3)
  have loop: "forward_loop32 (transitions ex_model) [0, -10000, -10000] big_feats
              = Inr [16767220, 16777220, 16777224]"
    by (simp add: ex_model_def big_feats_def step1 step2)
  have row: "getitem (transitions ex_model) 2 = Inr [0, 5, -10000]"
    by (simp add: ex_model_def ex_transitions_def getitem_def)
  have fin: "ebind (tensor_op2 fadd [[16767220, 16777220, 16777224]] [[0, 5, -10000]])
               log_sum_exp32 = Inr 16777224"
    by (simp add: log_sum_exp32_def argmax_def item2_def f32_eval)
  show ?thesis
    by (simp add: forward_alg32_def lk init loop row fin)
qed

text \<open>
  In 32-bit floats the sum of the emission scores \<open>2\<^sup>2\<^sup>4\<close> and 1 is rounded to
  \<open>2\<^sup>2\<^sup>4\<close>, so that the score returned for the tags O, O is 16777226, not the sum
  16777227 of the five scores.
\<close>

theorem score_sentences_rounding_counterexample:
  "score_sentences32 ex_model big_feats [1, 1] = Inr 16777226 \<and>
   pair_scores (transitions ex_model) (0 # [1, 1] @ [2]) + emission_scores big_feats [1, 1]
     = 16777227"
  by (simp add: score_sentences32_big) (simp add: ex_model_def ex_transitions_def big_feats_def)

text \<open>
  On the same input the forward algorithm in 32-bit floats returns 16777224, which is
  below the gold score 16777226 of the tags O, O.
\<close>

theorem forward_alg_rounding_counterexample:
  "forward_alg32 ex_model big_feats = Inr 16777224 \<and>
   score_sentences32 ex_model big_feats [1, 1] = Inr 16777226 \<and>
   (16777224 :: real) < 16777226"
  by (simp add: forward_alg32_big score_sentences32_big)

end
